theory Spec2Isabelle
  imports Complex_Main
begin

section \<open>Numbers of the geometry engine\<close>

text \<open>
  Every quantity of the engine is a JavaScript number. The model keeps the three special
  values the code tests for or can produce (\<open>NaN\<close>, \<open>+Infinity\<close>, \<open>-Infinity\<close>) and takes
  the finite values as exact reals. The operations below follow ECMAScript on the special
  values. On finite values they are the exact operations: a double rounds every result,
  and a result beyond the largest double becomes an infinity, which the exact sum and
  product below never do; the sign of zero is not kept either. Most properties proved
  further down do not depend on the value of a finite result: they are about the
  structure of the buffers, about equalities between quantities computed the same way,
  or about the behaviour on \<open>NaN\<close> and the infinities. The range of the shape factor
  does depend on it, and is stated for parameters whose magnitudes keep every
  intermediate value of the machine finite. The one place where the code narrows its
  numbers, the conversion of positions and normals to single precision, is modelled
  with its overflow (\<open>toFloat32\<close> below).
\<close>

datatype num = Fin real | PInf | NInf | NaN

fun isNaN :: "num \<Rightarrow> bool" where
  "isNaN NaN = True"
| "isNaN _ = False"

fun isFinite :: "num \<Rightarrow> bool" where
  "isFinite (Fin _) = True"
| "isFinite _ = False"

instantiation num :: "{plus, minus, uminus, times, inverse, ord}"
begin

fun plus_num :: "num \<Rightarrow> num \<Rightarrow> num" where
  "plus_num NaN _ = NaN"
| "plus_num _ NaN = NaN"
| "plus_num (Fin a) (Fin b) = Fin (a + b)"
| "plus_num PInf NInf = NaN"
| "plus_num NInf PInf = NaN"
| "plus_num PInf _ = PInf"
| "plus_num _ PInf = PInf"
| "plus_num NInf _ = NInf"
| "plus_num _ NInf = NInf"

fun uminus_num :: "num \<Rightarrow> num" where
  "uminus_num (Fin a) = Fin (- a)"
| "uminus_num PInf = NInf"
| "uminus_num NInf = PInf"
| "uminus_num NaN = NaN"

definition minus_num :: "num \<Rightarrow> num \<Rightarrow> num" where
  "minus_num a b = a + (- b)"

fun times_num :: "num \<Rightarrow> num \<Rightarrow> num" where
  "times_num NaN _ = NaN"
| "times_num _ NaN = NaN"
| "times_num (Fin a) (Fin b) = Fin (a * b)"
| "times_num PInf (Fin b) = (if b = 0 then NaN else if 0 < b then PInf else NInf)"
| "times_num NInf (Fin b) = (if b = 0 then NaN else if 0 < b then NInf else PInf)"
| "times_num (Fin a) PInf = (if a = 0 then NaN else if 0 < a then PInf else NInf)"
| "times_num (Fin a) NInf = (if a = 0 then NaN else if 0 < a then NInf else PInf)"
| "times_num PInf PInf = PInf"
| "times_num NInf NInf = PInf"
| "times_num PInf NInf = NInf"
| "times_num NInf PInf = NInf"

text \<open>Division by a zero takes the zero as \<open>+0\<close>.\<close>

fun divide_num :: "num \<Rightarrow> num \<Rightarrow> num" where
  "divide_num NaN _ = NaN"
| "divide_num _ NaN = NaN"
| "divide_num (Fin a) (Fin b) =
     (if b = 0 then (if a = 0 then NaN else if 0 < a then PInf else NInf)
      else Fin (a / b))"
| "divide_num (Fin a) PInf = Fin 0"
| "divide_num (Fin a) NInf = Fin 0"
| "divide_num PInf (Fin b) = (if 0 \<le> b then PInf else NInf)"
| "divide_num NInf (Fin b) = (if 0 \<le> b then NInf else PInf)"
| "divide_num _ _ = NaN"

definition inverse_num :: "num \<Rightarrow> num" where
  "inverse_num a = divide (Fin 1) a"

text \<open>The comparison \<open><\<close> of the language: false as soon as one side is \<open>NaN\<close>.\<close>

fun less_num :: "num \<Rightarrow> num \<Rightarrow> bool" where
  "less_num NaN _ = False"
| "less_num _ NaN = False"
| "less_num (Fin a) (Fin b) = (a < b)"
| "less_num NInf NInf = False"
| "less_num NInf _ = True"
| "less_num PInf _ = False"
| "less_num (Fin a) PInf = True"
| "less_num (Fin a) NInf = False"

definition less_eq_num :: "num \<Rightarrow> num \<Rightarrow> bool" where
  "less_eq_num a b = (a < b \<or> (a = b \<and> \<not> isNaN a))"

instance ..

end

fun Math_abs :: "num \<Rightarrow> num" where
  "Math_abs (Fin a) = Fin \<bar>a\<bar>"
| "Math_abs PInf = PInf"
| "Math_abs NInf = PInf"
| "Math_abs NaN = NaN"

fun Math_min :: "num \<Rightarrow> num \<Rightarrow> num" where
  "Math_min NaN _ = NaN"
| "Math_min _ NaN = NaN"
| "Math_min a b = (if b < a then b else a)"

fun Math_max :: "num \<Rightarrow> num \<Rightarrow> num" where
  "Math_max NaN _ = NaN"
| "Math_max _ NaN = NaN"
| "Math_max a b = (if a < b then b else a)"

fun Math_floor :: "num \<Rightarrow> num" where
  "Math_floor (Fin a) = Fin (of_int \<lfloor>a\<rfloor>)"
| "Math_floor a = a"

fun Math_sqrt :: "num \<Rightarrow> num" where
  "Math_sqrt (Fin a) = (if a < 0 then NaN else Fin (sqrt a))"
| "Math_sqrt PInf = PInf"
| "Math_sqrt _ = NaN"

fun Math_sin :: "num \<Rightarrow> num" where
  "Math_sin (Fin a) = Fin (sin a)"
| "Math_sin _ = NaN"

fun Math_cos :: "num \<Rightarrow> num" where
  "Math_cos (Fin a) = Fin (cos a)"
| "Math_cos _ = NaN"

fun Math_exp :: "num \<Rightarrow> num" where
  "Math_exp (Fin a) = Fin (exp a)"
| "Math_exp PInf = PInf"
| "Math_exp NInf = Fin 0"
| "Math_exp NaN = NaN"

definition Math_PI :: num where
  "Math_PI = Fin pi"

text \<open>
  \<open>Math.pow\<close>: an exponent \<open>0\<close> gives \<open>1\<close> whatever the base, a \<open>NaN\<close> anywhere else
  gives \<open>NaN\<close>, a negative finite base needs an integral exponent.
\<close>

definition odd_real :: "real \<Rightarrow> bool" where
  "odd_real y = (y = of_int \<lfloor>y\<rfloor> \<and> odd \<lfloor>y\<rfloor>)"

fun Math_pow :: "num \<Rightarrow> num \<Rightarrow> num" where
  "Math_pow _ NaN = NaN"
| "Math_pow a (Fin b) =
     (if b = 0 then Fin 1
      else case a of
        NaN \<Rightarrow> NaN
      | PInf \<Rightarrow> (if 0 < b then PInf else Fin 0)
      | NInf \<Rightarrow> (if 0 < b then (if odd_real b then NInf else PInf) else Fin 0)
      | Fin x \<Rightarrow>
          (if x = 0 then (if 0 < b then Fin 0 else PInf)
           else if 0 < x then Fin (x powr b)
           else if b = of_int \<lfloor>b\<rfloor>
                then (if odd \<lfloor>b\<rfloor> then Fin (- (\<bar>x\<bar> powr b)) else Fin (\<bar>x\<bar> powr b))
                else NaN))"
| "Math_pow a PInf =
     (case Math_abs a of
        NaN \<Rightarrow> NaN
      | Fin x \<Rightarrow> (if x < 1 then Fin 0 else if x = 1 then NaN else PInf)
      | _ \<Rightarrow> PInf)"
| "Math_pow a NInf =
     (case Math_abs a of
        NaN \<Rightarrow> NaN
      | Fin x \<Rightarrow> (if x < 1 then PInf else if x = 1 then NaN else Fin 0)
      | _ \<Rightarrow> Fin 0)"

text \<open>The remainder \<open>a % b\<close>, with the sign of the dividend.\<close>

fun js_rem :: "num \<Rightarrow> num \<Rightarrow> num" where
  "js_rem (Fin a) (Fin b) =
     (if b = 0 then NaN
      else Fin (a - b * (if 0 \<le> a / b then of_int \<lfloor>a / b\<rfloor> else of_int \<lceil>a / b\<rceil>)))"
| "js_rem (Fin a) PInf = Fin a"
| "js_rem (Fin a) NInf = Fin a"
| "js_rem _ _ = NaN"

text \<open>\<open>a || d\<close> on numbers: \<open>0\<close> and \<open>NaN\<close> are falsy.\<close>

definition js_or :: "num \<Rightarrow> num \<Rightarrow> num" where
  "js_or a d = (if a = Fin 0 \<or> isNaN a then d else a)"

definition of_count :: "nat \<Rightarrow> num" where
  "of_count n = Fin (real n)"

text \<open>
  Storing a number in a \<open>Float32Array\<close>: \<open>NaN\<close> and the infinities are kept, and a
  finite value whose magnitude is at least \<open>2^128 - 2^103\<close> (the largest single plus half
  a unit in its last place) becomes an infinity of its sign. The rounding of the smaller
  values to 24 significant bits is not modelled.
\<close>

fun toFloat32 :: "num \<Rightarrow> num" where
  "toFloat32 (Fin r) =
     (if 2 ^ 128 - 2 ^ 103 \<le> \<bar>r\<bar> then (if 0 < r then PInf else NInf) else Fin r)"
| "toFloat32 a = a"


section \<open>Vectors\<close>

text \<open>
  \<open>THREE.Vector3\<close> comes from the three.js library. The methods the engine calls are
  written out as that library defines them: \<open>normalize\<close> divides by
  \<open>length() || 1\<close>, \<open>divideScalar s\<close> multiplies by \<open>1 / s\<close>, and \<open>a.cross(b)\<close> is the
  vector product \<open>a \<times> b\<close>. Methods that mutate their receiver return the new vector here.
\<close>

datatype Vector3 = Vector3 (vx: num) (vy: num) (vz: num)

definition zeroVector :: Vector3 where
  "zeroVector = Vector3 (Fin 0) (Fin 0) (Fin 0)"

fun add :: "Vector3 \<Rightarrow> Vector3 \<Rightarrow> Vector3" where
  "add (Vector3 a b c) (Vector3 x y z) = Vector3 (a + x) (b + y) (c + z)"

fun subVectors :: "Vector3 \<Rightarrow> Vector3 \<Rightarrow> Vector3" where
  "subVectors (Vector3 a b c) (Vector3 x y z) = Vector3 (a - x) (b - y) (c - z)"

fun multiplyScalar :: "Vector3 \<Rightarrow> num \<Rightarrow> Vector3" where
  "multiplyScalar (Vector3 a b c) s = Vector3 (a * s) (b * s) (c * s)"

fun addScaledVector :: "Vector3 \<Rightarrow> Vector3 \<Rightarrow> num \<Rightarrow> Vector3" where
  "addScaledVector (Vector3 a b c) (Vector3 x y z) s =
     Vector3 (a + x * s) (b + y * s) (c + z * s)"

fun negate :: "Vector3 \<Rightarrow> Vector3" where
  "negate (Vector3 a b c) = Vector3 (- a) (- b) (- c)"

fun lengthSq :: "Vector3 \<Rightarrow> num" where
  "lengthSq (Vector3 a b c) = a * a + b * b + c * c"

definition vlength :: "Vector3 \<Rightarrow> num" where
  "vlength v = Math_sqrt (lengthSq v)"

definition divideScalar :: "Vector3 \<Rightarrow> num \<Rightarrow> Vector3" where
  "divideScalar v s = multiplyScalar v (Fin 1 / s)"

definition normalize :: "Vector3 \<Rightarrow> Vector3" where
  "normalize v = divideScalar v (js_or (vlength v) (Fin 1))"

fun cross :: "Vector3 \<Rightarrow> Vector3 \<Rightarrow> Vector3" where
  "cross (Vector3 ax ay az) (Vector3 bx by bz) =
     Vector3 (ay * bz - az * by) (az * bx - ax * bz) (ax * by - ay * bx)"

section \<open>Output buffers\<close>

datatype LineType = Cut | Mountain | Valley | Spine | Outline

record BlueprintLine =
  lx1 :: num
  ly1 :: num
  lx2 :: num
  ly2 :: num
  ltype :: LineType

text \<open>
  The four arrays \<open>generateKirigamiGeometry\<close> allocates and appends to. An index is
  \<open>positions.length / 3\<close>; positions only ever grow by whole vertices, so the quotient is
  the natural number \<open>length positions div 3\<close>.
\<close>

record Buffers =
  positions :: "num list"
  normals :: "num list"
  indices :: "nat list"
  blueprintLines :: "BlueprintLine list"

definition emptyBuffers :: Buffers where
  "emptyBuffers = \<lparr>positions = [], normals = [], indices = [], blueprintLines = []\<rparr>"

definition pushQuad ::
  "Buffers \<Rightarrow> Vector3 \<Rightarrow> Vector3 \<Rightarrow> Vector3 \<Rightarrow> Vector3 \<Rightarrow> Vector3 \<Rightarrow> Buffers" where
  "pushQuad b v0 v1 v2 v3 n =
     (let idx = length (positions b) div 3 in
      if isNaN (vx v0) \<or> isNaN (vx n) then b
      else b\<lparr>positions := positions b @
                 [vx v0, vy v0, vz v0, vx v1, vy v1, vz v1,
                  vx v2, vy v2, vz v2, vx v3, vy v3, vz v3],
               normals := normals b @
                 [vx n, vy n, vz n, vx n, vy n, vz n,
                  vx n, vy n, vz n, vx n, vy n, vz n],
               indices := indices b @ [idx, idx + 1, idx + 2, idx, idx + 2, idx + 3]\<rparr>)"

text \<open>
  \<open>pushVolumetricSegment\<close> of \<open>utils/mathEngine.ts\<close>: top face, and for a positive
  thickness the bottom face and the two side walls.
\<close>

definition pushVolumetricSegment ::
  "Buffers \<Rightarrow> Vector3 \<Rightarrow> Vector3 \<Rightarrow> Vector3 \<Rightarrow> Vector3 \<Rightarrow> Vector3 \<Rightarrow> num \<Rightarrow> bool \<Rightarrow> bool
   \<Rightarrow> Buffers" where
  "pushVolumetricSegment b v0 v1 v2 v3 n thickness generateLeftWall generateRightWall =
     (let b1 = pushQuad b v0 v1 v2 v3 n in
      if Fin 0 < thickness then
        (let safeN0 = normalize n;
             safeN = (if isNaN (vx safeN0) then Vector3 (Fin 0) (Fin 0) (Fin 1) else safeN0);
             off = multiplyScalar safeN (- thickness);
             p0 = add v0 off; p1 = add v1 off; p2 = add v2 off; p3 = add v3 off;
             b2 = pushQuad b1 p0 p3 p2 p1 (negate n);
             b3 = (if generateLeftWall then
                     (let edge = subVectors v3 v0 in
                      if Fin 0.000001 < lengthSq edge
                      then pushQuad b2 v0 v3 p3 p0 (normalize (cross edge n))
                      else b2)
                   else b2)
         in (if generateRightWall then
               (let edge = subVectors v2 v1 in
                if Fin 0.000001 < lengthSq edge
                then pushQuad b3 v1 p1 p2 v2 (normalize (cross edge n))
                else b3)
             else b3))
      else b1)"

text \<open>
  \<open>pushVolumetricSegment\<close> of the second engine file (\<open>unnamed/part_002\<close>): the same,
  except that the left wall's normal is \<open>n \<times> edge\<close>.
\<close>

definition pushVolumetricSegment2 ::
  "Buffers \<Rightarrow> Vector3 \<Rightarrow> Vector3 \<Rightarrow> Vector3 \<Rightarrow> Vector3 \<Rightarrow> Vector3 \<Rightarrow> num \<Rightarrow> bool \<Rightarrow> bool
   \<Rightarrow> Buffers" where
  "pushVolumetricSegment2 b v0 v1 v2 v3 n thickness generateLeftWall generateRightWall =
     (let b1 = pushQuad b v0 v1 v2 v3 n in
      if Fin 0 < thickness then
        (let safeN0 = normalize n;
             safeN = (if isNaN (vx safeN0) then Vector3 (Fin 0) (Fin 0) (Fin 1) else safeN0);
             off = multiplyScalar safeN (- thickness);
             p0 = add v0 off; p1 = add v1 off; p2 = add v2 off; p3 = add v3 off;
             b2 = pushQuad b1 p0 p3 p2 p1 (negate n);
             b3 = (if generateLeftWall then
                     (let edge = subVectors v3 v0 in
                      if Fin 0.000001 < lengthSq edge
                      then pushQuad b2 v0 v3 p3 p0 (normalize (cross n edge))
                      else b2)
                   else b2)
         in (if generateRightWall then
               (let edge = subVectors v2 v1 in
                if Fin 0.000001 < lengthSq edge
                then pushQuad b3 v1 p1 p2 v2 (normalize (cross edge n))
                else b3)
             else b3))
      else b1)"

text \<open>
  One pass of the column loop makes a sequence of calls: \<open>pushVolumetricSegment\<close> with
  four corners and a normal (always with the global thickness and both walls requested),
  and \<open>blueprintLines.push\<close> with a line. The column functions below return that
  sequence in program order; \<open>exec\<close> performs one call on the buffers.
\<close>

datatype Cmd =
  Segment Vector3 Vector3 Vector3 Vector3 Vector3
| Line BlueprintLine

fun exec :: "num \<Rightarrow> Buffers \<Rightarrow> Cmd \<Rightarrow> Buffers" where
  "exec thickness b (Segment v0 v1 v2 v3 n) =
     pushVolumetricSegment b v0 v1 v2 v3 n thickness True True"
| "exec thickness b (Line l) = b\<lparr>blueprintLines := blueprintLines b @ [l]\<rparr>"

fun exec2 :: "num \<Rightarrow> Buffers \<Rightarrow> Cmd \<Rightarrow> Buffers" where
  "exec2 thickness b (Segment v0 v1 v2 v3 n) =
     pushVolumetricSegment2 b v0 v1 v2 v3 n thickness True True"
| "exec2 thickness b (Line l) = b\<lparr>blueprintLines := blueprintLines b @ [l]\<rparr>"

fun linesOf :: "Cmd list \<Rightarrow> BlueprintLine list" where
  "linesOf [] = []"
| "linesOf (Segment _ _ _ _ _ # cs) = linesOf cs"
| "linesOf (Line l # cs) = l # linesOf cs"

definition mkLine :: "num \<Rightarrow> num \<Rightarrow> num \<Rightarrow> num \<Rightarrow> LineType \<Rightarrow> BlueprintLine" where
  "mkLine a b c d t = \<lparr>lx1 = a, ly1 = b, lx2 = c, ly2 = d, ltype = t\<rparr>"

section \<open>Configuration\<close>

datatype AlgoType =
  Stairs | Sine | Gaussian | Ripple | Voronoi | Noise | Fractal | Custom | Sphere
  | Pyramid | Steps | Torus | Pagoda | Vase | Canyon | Image | Sketch

record PaperSize =
  width :: num
  height :: num
  margin :: num

text \<open>
  \<open>ImageData\<close>: \<open>data\<close> is a byte array (\<open>Uint8ClampedArray\<close>), four bytes per pixel.
\<close>

record ImageData =
  img_width :: nat
  img_height :: nat
  img_data :: "nat list"

text \<open>
  \<open>AppState\<close>, without the three fields the engine never reads (\<open>showWireframe\<close>,
  \<open>overlayTexture\<close>, \<open>isVideoTexture\<close>). The counts \<open>rows\<close>, \<open>cols\<close> and
  \<open>fractalOctaves\<close> are natural numbers, as the controls produce them.
\<close>

record AppState =
  algorithm :: AlgoType
  rows :: nat
  cols :: nat
  amplitude :: num
  frequency :: num
  spread :: num
  curvature :: num
  roughness :: num
  fractalOctaves :: nat
  customFormula :: string
  sketchPoints :: "(num \<times> num) list"
  foldProgress :: num
  paperThickness :: num
  paperSize :: PaperSize
  heightMapData :: "ImageData option"

section \<open>Quantities shared by both engine files\<close>

definition KERF :: num where
  "KERF = Fin 0.15"

definition thicknessOf :: "AppState \<Rightarrow> num" where
  "thicknessOf st = js_or (paperThickness st) (Fin 0.1)"

definition stripWidth :: "AppState \<Rightarrow> num" where
  "stripWidth st =
     (width (paperSize st) - margin (paperSize st) * Fin 2) / of_count (cols st)"

definition xBase :: "AppState \<Rightarrow> nat \<Rightarrow> num" where
  "xBase st c =
     (- width (paperSize st)) / Fin 2 + margin (paperSize st) + of_count c * stripWidth st"

definition xLeft :: "AppState \<Rightarrow> nat \<Rightarrow> num" where
  "xLeft st c = xBase st c + KERF / Fin 2"

definition xRight :: "AppState \<Rightarrow> nat \<Rightarrow> num" where
  "xRight st c = xBase st c + stripWidth st - KERF / Fin 2"

definition normX :: "AppState \<Rightarrow> nat \<Rightarrow> num" where
  "normX st c = (of_count c / of_count (cols st)) * Fin 2 - Fin 1"

definition isPopup :: "nat \<Rightarrow> bool" where
  "isPopup c = (c mod 2 \<noteq> 0)"

text \<open>Fold kinematics: the wall rotates about the x axis by \<open>t \<cdot> \<pi>/2\<close>.\<close>

definition foldAngleRad :: "AppState \<Rightarrow> num" where
  "foldAngleRad st = foldProgress st * (Math_PI / Fin 2)"

definition vecFloor :: Vector3 where
  "vecFloor = Vector3 (Fin 0) (Fin 1) (Fin 0)"

definition normFloor :: Vector3 where
  "normFloor = Vector3 (Fin 0) (Fin 0) (Fin 1)"

definition vecWall :: "AppState \<Rightarrow> Vector3" where
  "vecWall st = Vector3 (Fin 0) (Math_cos (foldAngleRad st)) (Math_sin (foldAngleRad st))"

definition normWall :: "AppState \<Rightarrow> Vector3" where
  "normWall st =
     Vector3 (Fin 0) (- Math_sin (foldAngleRad st)) (Math_cos (foldAngleRad st))"


section \<open>The engine of the second file (\<open>unnamed/part_002\<close>)\<close>

text \<open>The profile radius of an active strip, before and after the clamp to the paper.\<close>

definition rawProfileRadius2 :: "AppState \<Rightarrow> nat \<Rightarrow> num" where
  "rawProfileRadius2 st c =
     (let w = width (paperSize st); m = margin (paperSize st) in
      case algorithm st of
        Sphere \<Rightarrow>
          (let rSphere = amplitude st;
               xDist = Math_abs (normX st c * (w / Fin 2 - m))
           in if xDist < rSphere
              then Math_sqrt (rSphere * rSphere - xDist * xDist) else Fin 0)
      | Pyramid \<Rightarrow>
          (let rPyr = amplitude st;
               xD = Math_abs (normX st c * (w / Fin 2 - m))
           in Math_max (Fin 0) (rPyr - xD))
      | Steps \<Rightarrow> amplitude st
      | Stairs \<Rightarrow> amplitude st
      | _ \<Rightarrow> amplitude st * (Math_cos (normX st c * Math_PI) * Fin 0.5 + Fin 0.5))"

definition profileRadius2 :: "AppState \<Rightarrow> nat \<Rightarrow> num" where
  "profileRadius2 st c =
     Math_min (rawProfileRadius2 st c)
       (height (paperSize st) / Fin 2 - margin (paperSize st))"

definition steps2 :: "AppState \<Rightarrow> nat" where
  "steps2 st = max 2 (rows st)"

text \<open>
  One pass of the step loop: a tread, the valley line if the riser is not negligible, a
  riser, the mountain line unless this is the last step or the tread is negligible. The
  loop state is \<open>currentPos\<close>, \<open>currentPaperY\<close> and the calls made so far.
\<close>

definition stepBody2 ::
  "AppState \<Rightarrow> nat \<Rightarrow> nat \<Rightarrow> Vector3 \<times> num \<times> Cmd list \<Rightarrow> Vector3 \<times> num \<times> Cmd list" where
  "stepBody2 st c i s =
     (case s of (currentPos, currentPaperY, out) \<Rightarrow>
      let xl = xLeft st c; xr = xRight st c;
          profileRadius = profileRadius2 st c;
          steps = of_count (steps2 st);
          ang1 = (of_count i / steps) * (Math_PI / Fin 2);
          ang2 = ((of_count i + Fin 1) / steps) * (Math_PI / Fin 2);
          y1 = (- profileRadius) * Math_cos ang1;
          z1 = profileRadius * Math_sin ang1;
          y2 = (- profileRadius) * Math_cos ang2;
          z2 = profileRadius * Math_sin ang2;
          dy = Math_abs (y2 - y1);
          dz = Math_abs (z2 - z1);
          pTreadEnd = addScaledVector currentPos vecFloor dy;
          tread = Segment (Vector3 xl (vy currentPos) (vz currentPos))
                          (Vector3 xr (vy currentPos) (vz currentPos))
                          (Vector3 xr (vy pTreadEnd) (vz pTreadEnd))
                          (Vector3 xl (vy pTreadEnd) (vz pTreadEnd)) normFloor;
          paperY1 = currentPaperY + dy;
          valley = (if Fin 0.01 < dz then [Line (mkLine xl paperY1 xr paperY1 Valley)] else []);
          pRiserEnd = addScaledVector pTreadEnd (vecWall st) dz;
          riser = Segment (Vector3 xl (vy pTreadEnd) (vz pTreadEnd))
                          (Vector3 xr (vy pTreadEnd) (vz pTreadEnd))
                          (Vector3 xr (vy pRiserEnd) (vz pRiserEnd))
                          (Vector3 xl (vy pRiserEnd) (vz pRiserEnd)) (normWall st);
          paperY2 = paperY1 + dz;
          mountain = (if of_count i < steps - Fin 1 \<and> Fin 0.01 < dy
                      then [Line (mkLine xl paperY2 xr paperY2 Mountain)] else [])
      in (pRiserEnd, paperY2, out @ [tread] @ valley @ [riser] @ mountain))"

definition stepLoop2 :: "AppState \<Rightarrow> nat \<Rightarrow> Vector3 \<times> num \<times> Cmd list" where
  "stepLoop2 st c =
     fold (stepBody2 st c) [0..<steps2 st]
       (Vector3 (Fin 0) (- profileRadius2 st c) (Fin 0), - profileRadius2 st c, [])"

text \<open>The two static segments of a fixed strip, which a negligible active strip reuses.\<close>

definition floorSegment2 :: "AppState \<Rightarrow> nat \<Rightarrow> Cmd" where
  "floorSegment2 st c =
     (let xl = xLeft st c; xr = xRight st c; h = height (paperSize st) in
      Segment (Vector3 xl ((- h) / Fin 2) (Fin 0)) (Vector3 xr ((- h) / Fin 2) (Fin 0))
              (Vector3 xr (Fin 0) (Fin 0)) (Vector3 xl (Fin 0) (Fin 0)) normFloor)"

definition wallSegment2 :: "AppState \<Rightarrow> nat \<Rightarrow> Cmd" where
  "wallSegment2 st c =
     (let xl = xLeft st c; xr = xRight st c; h = height (paperSize st);
          pSpine = Vector3 (Fin 0) (Fin 0) (Fin 0);
          pTop = addScaledVector zeroVector (vecWall st) (h / Fin 2)
      in Segment (Vector3 xl (vy pSpine) (vz pSpine)) (Vector3 xr (vy pSpine) (vz pSpine))
                 (Vector3 xr (vy pTop) (vz pTop)) (Vector3 xl (vy pTop) (vz pTop))
                 (normWall st))"

definition fixedColumn2 :: "AppState \<Rightarrow> nat \<Rightarrow> Cmd list" where
  "fixedColumn2 st c =
     (let xl = xLeft st c; xr = xRight st c; h = height (paperSize st) in
      [floorSegment2 st c,
       Line (mkLine xl ((- h) / Fin 2) xl (Fin 0) Spine),
       Line (mkLine xr ((- h) / Fin 2) xr (Fin 0) Spine),
       wallSegment2 st c,
       Line (mkLine xl (Fin 0) xr (Fin 0) Valley),
       Line (mkLine xl (Fin 0) xl (h / Fin 2) Spine),
       Line (mkLine xr (Fin 0) xr (h / Fin 2) Spine)])"

definition passiveColumn2 :: "AppState \<Rightarrow> nat \<Rightarrow> Cmd list" where
  "passiveColumn2 st c =
     [floorSegment2 st c, wallSegment2 st c,
      Line (mkLine (xLeft st c) (Fin 0) (xRight st c) (Fin 0) Valley)]"

definition activeColumn2 :: "AppState \<Rightarrow> nat \<Rightarrow> Cmd list" where
  "activeColumn2 st c =
     (let xl = xLeft st c; xr = xRight st c; h = height (paperSize st);
          yStart = - profileRadius2 st c;
          floorMargin =
            Segment (Vector3 xl ((- h) / Fin 2) (Fin 0)) (Vector3 xr ((- h) / Fin 2) (Fin 0))
                    (Vector3 xr yStart (Fin 0)) (Vector3 xl yStart (Fin 0)) normFloor;
          cuts = [Line (mkLine xl ((- h) / Fin 2) xl (h / Fin 2) Cut),
                  Line (mkLine xr ((- h) / Fin 2) xr (h / Fin 2) Cut)]
      in case stepLoop2 st c of (currentPos, currentPaperY, out) \<Rightarrow>
         let pWallMarginEnd = addScaledVector zeroVector (vecWall st) (h / Fin 2);
             wallMargin =
               Segment (Vector3 xl (vy currentPos) (vz currentPos))
                       (Vector3 xr (vy currentPos) (vz currentPos))
                       (Vector3 xr (vy pWallMarginEnd) (vz pWallMarginEnd))
                       (Vector3 xl (vy pWallMarginEnd) (vz pWallMarginEnd)) (normWall st)
         in [floorMargin] @ cuts @ out @ [wallMargin])"

definition column2 :: "AppState \<Rightarrow> nat \<Rightarrow> Cmd list" where
  "column2 st c =
     (if \<not> isPopup c then fixedColumn2 st c
      else if profileRadius2 st c < Fin 1 then passiveColumn2 st c
      else activeColumn2 st c)"

record Stats =
  totalCutLength :: num
  totalFoldLength :: num
  polyCount :: num

record GeometryData2 =
  g_positions :: "num list"
  g_normals :: "num list"
  g_indices :: "nat list"
  g_blueprintLines :: "BlueprintLine list"
  g_stats :: Stats

definition lineLength :: "BlueprintLine \<Rightarrow> num" where
  "lineLength l =
     Math_sqrt (Math_pow (lx2 l - lx1 l) (Fin 2) + Math_pow (ly2 l - ly1 l) (Fin 2))"

text \<open>The statistics pass: one \<open>forEach\<close> over the lines, with two running totals.\<close>

definition statsStep :: "num \<times> num \<Rightarrow> BlueprintLine \<Rightarrow> num \<times> num" where
  "statsStep acc l =
     (case acc of (totalCut, totalFold) \<Rightarrow>
      let len = lineLength l;
          totalCut1 = (if ltype l = Cut then totalCut + len else totalCut);
          totalFold1 = (if ltype l = Mountain \<or> ltype l = Valley then totalFold + len
                        else totalFold)
      in (totalCut1, totalFold1))"

definition runColumns2 :: "AppState \<Rightarrow> Buffers" where
  "runColumns2 st =
     foldl (exec2 (thicknessOf st)) emptyBuffers (concat (map (column2 st) [0..<cols st]))"

text \<open>
  The result: positions and normals are returned as \<open>new Float32Array(positions)\<close> and
  \<open>new Float32Array(normals)\<close>, indices and lines as they are.
\<close>

definition generateKirigamiGeometry2 :: "AppState \<Rightarrow> GeometryData2" where
  "generateKirigamiGeometry2 st =
     (let b = runColumns2 st in
      case foldl statsStep (Fin 0, Fin 0) (blueprintLines b) of (totalCut, totalFold) \<Rightarrow>
        \<lparr>g_positions = map toFloat32 (positions b), g_normals = map toFloat32 (normals b),
         g_indices = indices b,
         g_blueprintLines = blueprintLines b,
         g_stats = \<lparr>totalCutLength = totalCut, totalFoldLength = totalFold,
                    polyCount = of_count (length (indices b)) / Fin 3\<rparr>\<rparr>)"


section \<open>The engine of \<open>utils/mathEngine.ts\<close>\<close>

subsection \<open>Profile evaluation\<close>

definition catmullRom :: "num \<Rightarrow> num \<Rightarrow> num \<Rightarrow> num \<Rightarrow> num \<Rightarrow> num" where
  "catmullRom p0 p1 p2 p3 t =
     (let v0 = (p2 - p0) * Fin 0.5;
          v1 = (p3 - p1) * Fin 0.5;
          t2 = t * t;
          t3 = t * t2
      in (Fin 2 * p1 - Fin 2 * p2 + v0 + v1) * t3
         + ((- Fin 3) * p1 + Fin 3 * p2 - Fin 2 * v0 - v1) * t2 + v0 * t + p1)"

text \<open>
  The \<open>custom\<close> variant hands the formula text to the language's own \<open>new Function\<close>.
  What that does is a parameter of the model, and the parameter ranges over the formulas
  that only compute: for a formula text and the arguments \<open>(x, f, i)\<close> the text either
  fails to compile (\<open>new Function\<close> throws), or the expression throws when run (the
  generated \<open>try\<close>/\<open>catch\<close> then returns \<open>0\<close>), or it yields a number (a result of
  another type counts as the number the language converts it to); in each case
  everything else is left as it was. The code gives the formula more than that: it
  passes the live \<open>Math\<close> object and the text runs with the global scope, so a formula
  can assign to \<open>Math.min\<close>, \<open>Math.max\<close>, \<open>Math.abs\<close> or \<open>isNaN\<close>, which the engine
  calls afterwards (also outside the \<open>try\<close>), and it can fail to return. Such a
  formula is not an \<open>Evaluator\<close>: nothing below is stated about it.
\<close>

datatype FormulaOutcome = CompileError | BodyThrows | Value num

type_synonym Evaluator = "string \<Rightarrow> num \<Rightarrow> num \<Rightarrow> num \<Rightarrow> FormulaOutcome"

definition clampAbs01 :: "num \<Rightarrow> num" where
  "clampAbs01 result =
     (if isNaN result then Fin 0 else Math_max (Fin 0) (Math_min (Fin 1) (Math_abs result)))"

definition customFactor :: "Evaluator \<Rightarrow> AppState \<Rightarrow> nat \<Rightarrow> num" where
  "customFactor ev st c =
     (case ev (customFormula st) (normX st c) (frequency st) (of_count c) of
        CompileError \<Rightarrow> Fin 0
      | BodyThrows \<Rightarrow> clampAbs01 (Fin 0)
      | Value result \<Rightarrow> clampAbs01 result)"

text \<open>The \<open>fractal\<close> loop; its state is \<open>(v, amp, freq)\<close>.\<close>

definition fractalBody :: "num \<Rightarrow> nat \<Rightarrow> num \<times> num \<times> num \<Rightarrow> num \<times> num \<times> num" where
  "fractalBody nx k s =
     (case s of (v, amp, freq) \<Rightarrow>
        (v + Math_sin (nx * Fin 5 * freq + of_count k * Fin 1.32) * amp,
         amp * Fin 0.5, freq * Fin 2))"

definition fractalFactor :: "AppState \<Rightarrow> nat \<Rightarrow> num" where
  "fractalFactor st c =
     (case fold (fractalBody (normX st c)) [0..<fractalOctaves st]
             (Fin 0, Fin 0.5, frequency st) of
        (v, amp, freq) \<Rightarrow> Math_min (Fin 1) (Math_abs v + Fin 0.1))"

text \<open>
  Reading the byte array at a computed index: outside the array (or at a fractional or
  non-finite index) the language gives \<open>undefined\<close>, which the sum turns into \<open>NaN\<close>.
\<close>

definition dataAt :: "nat list \<Rightarrow> num \<Rightarrow> num" where
  "dataAt d k =
     (case k of
        Fin r \<Rightarrow> (if r = of_int \<lfloor>r\<rfloor> \<and> 0 \<le> r \<and> nat \<lfloor>r\<rfloor> < length d
                  then of_count (d ! nat \<lfloor>r\<rfloor>) else NaN)
      | _ \<Rightarrow> NaN)"

definition imageFactor :: "AppState \<Rightarrow> nat \<Rightarrow> num" where
  "imageFactor st c =
     (case heightMapData st of
        None \<Rightarrow> Fin 0
      | Some img \<Rightarrow>
          (let u = (normX st c + Fin 1) / Fin 2;
               imgW = of_count (img_width img);
               imgH = of_count (img_height img);
               col = Math_floor (u * (imgW - Fin 1));
               row = Math_floor (imgH / Fin 2);
               idx = (row * imgW + col) * Fin 4;
               brightness = (dataAt (img_data img) idx + dataAt (img_data img) (idx + Fin 1)
                             + dataAt (img_data img) (idx + Fin 2)) / Fin 3
           in brightness / Fin 255))"

text \<open>The search loop of the \<open>sketch\<close> variant: \<open>while (i < n - 2 && u > pts[i+1].x) i++\<close>.\<close>

function findSpan :: "(num \<times> num) list \<Rightarrow> num \<Rightarrow> nat \<Rightarrow> nat" where
  "findSpan pts u i =
     (if i + 2 < length pts \<and> fst (pts ! (i + 1)) < u then findSpan pts u (i + 1) else i)"
  by pat_completeness auto
termination
  by (relation "measure (\<lambda>(pts, u, i). length pts - i)") auto

declare findSpan.simps [simp del]

definition sketchFactor :: "AppState \<Rightarrow> nat \<Rightarrow> num" where
  "sketchFactor st c =
     (let pts = sketchPoints st in
      if 1 < length pts then
        (let u = (normX st c + Fin 1) / Fin 2;
             i = findSpan pts u 0;
             p1 = pts ! i;
             p2 = pts ! (i + 1);
             p0 = (if 0 < i then pts ! (i - 1) else (fst p1 - (fst p2 - fst p1), snd p1));
             p3 = (if i + 2 < length pts then pts ! (i + 2)
                   else (fst p2 + (fst p2 - fst p1), snd p2));
             range = fst p2 - fst p1;
             tLerp = (if range = Fin 0 then Fin 0 else (u - fst p1) / range)
         in if length pts < 2 then snd (pts ! 0)
            else Math_max (Fin 0)
                   (Math_min (Fin 1) (catmullRom (snd p0) (snd p1) (snd p2) (snd p3) tLerp)))
      else Fin 0.5)"

definition sphereFactor :: "AppState \<Rightarrow> nat \<Rightarrow> num" where
  "sphereFactor st c =
     (let nx = normX st c;
          sphExp = Math_max (Fin 0.1) (curvature st);
          sphWidth = Fin 0.5 + frequency st * Fin 0.5;
          sphX = Math_abs (nx * sphWidth)
      in if sphX < Fin 1 then
           (let baseVal = Math_pow (Fin 1 - Math_pow sphX sphExp) (Fin 1 / sphExp)
            in if Fin 0 < roughness st
               then baseVal + Math_abs (Math_sin (nx * Fin 40 * sphWidth)) * roughness st
                              * Fin 0.2 * baseVal
               else baseVal)
         else Fin 0)"

definition pyramidFactor :: "AppState \<Rightarrow> nat \<Rightarrow> num" where
  "pyramidFactor st c =
     (let nx = normX st c;
          pyrExp = Math_max (Fin 0.1) (curvature st);
          pyrWidth = Fin 0.5 + frequency st * Fin 0.5;
          pyrX = Math_abs (nx * pyrWidth);
          basePyr = Math_pow (Math_max (Fin 0) (Fin 1 - pyrX)) pyrExp
      in if Fin 0 < roughness st then
           (let steps = Fin 2 + Math_floor ((Fin 1.1 - roughness st) * Fin 20)
            in Math_floor (basePyr * steps) / steps)
         else basePyr)"

definition torusFactor :: "AppState \<Rightarrow> nat \<Rightarrow> num" where
  "torusFactor st c =
     (let nx = normX st c;
          torExp = Math_max (Fin 0.1) (curvature st);
          torScale = Fin 1.0 + frequency st;
          torX = (Math_abs nx - Fin 0.5) * torScale * Fin 2
      in if Math_abs torX < Fin 1 then
           (let baseTor = Math_pow (Fin 1 - Math_pow (Math_abs torX) torExp) (Fin 1 / torExp)
            in if Fin 0 < roughness st
               then baseTor + Math_sin (nx * Fin 30) * roughness st * Fin 0.3 * baseTor
               else baseTor)
         else Fin 0)"

definition pagodaFactor :: "AppState \<Rightarrow> nat \<Rightarrow> num" where
  "pagodaFactor st c =
     (let nx = normX st c;
          pTiers = Fin 2 + Math_floor (frequency st * Fin 4);
          rawPagoda = Math_max (Fin 0) (Fin 1 - Math_abs nx * Fin 1.2);
          pagodaCurve = curvature st * Fin 0.5;
          curvedP0 = Math_pow rawPagoda pagodaCurve;
          curvedP =
            (if Fin 0 < roughness st then
               (let tierPhase = js_rem (curvedP0 * pTiers) (Fin 1)
                in if tierPhase < Fin 0.2
                   then curvedP0 + (Fin 0.2 - tierPhase) * roughness st * Fin 0.5
                   else curvedP0)
             else curvedP0)
      in Math_floor (curvedP * pTiers) / pTiers)"

definition vaseFactor :: "AppState \<Rightarrow> nat \<Rightarrow> num" where
  "vaseFactor st c =
     (let nx = normX st c;
          vx = nx * Math_PI * (frequency st + Fin 0.5);
          envPow = curvature st;
          envelope = Math_max (Fin 0) (Fin 1 - Math_pow (Math_abs nx) envPow);
          vaseShape = (Math_cos (vx * Fin 2) * Fin 0.5 + Fin 0.5) * envelope
      in if Fin 0 < roughness st
         then vaseShape + Math_cos (nx * Fin 60) * roughness st * Fin 0.1 * envelope
         else vaseShape)"

definition canyonFactor :: "AppState \<Rightarrow> nat \<Rightarrow> num" where
  "canyonFactor st c =
     (let nx = normX st c;
          cx = Math_abs (nx * (Fin 0.5 + frequency st * Fin 0.5));
          canyonExp = curvature st;
          baseCanyon = Math_pow (Math_min (Fin 1) (Math_max (Fin 0) cx)) canyonExp
      in if Fin 0 < roughness st then
           (let pseudoRand = Math_sin (of_count c * Fin 12.9898) * Fin 43758.5453;
                noise = (pseudoRand - Math_floor pseudoRand) * roughness st * Fin 0.2
            in baseCanyon + noise)
         else baseCanyon)"

definition stepsFactor :: "AppState \<Rightarrow> nat \<Rightarrow> num" where
  "stepsFactor st c =
     (let nx = normX st c;
          stepCount = Math_floor (Fin 2 + frequency st * Fin 8);
          stepRaw0 = Math_max (Fin 0) (Fin 1 - Math_abs nx);
          stepRaw = Math_pow stepRaw0 (curvature st)
      in Math_floor (stepRaw * stepCount) / stepCount)"

text \<open>The \<open>switch\<close> over the algorithm, entered only for a pop-up column.\<close>

definition shapeFactor :: "Evaluator \<Rightarrow> AppState \<Rightarrow> nat \<Rightarrow> num" where
  "shapeFactor ev st c =
     (let nx = normX st c in
      if isPopup c then
        (case algorithm st of
           Stairs \<Rightarrow> Fin 1
         | Sine \<Rightarrow> Math_abs (Math_sin (nx * Math_PI * frequency st))
         | Gaussian \<Rightarrow> Math_exp (- (nx * nx * spread st / Fin 100))
         | Ripple \<Rightarrow>
             (Math_cos (Math_abs nx * Fin 10 * frequency st) * Fin 0.5 + Fin 0.5)
             * Math_exp ((- Math_abs nx) * Fin 2)
         | Voronoi \<Rightarrow>
             Math_abs (Math_sin (nx * Fin 10)) * Math_abs (Math_cos (nx * Fin 5 * frequency st))
         | Noise \<Rightarrow>
             Math_sin (nx * Fin 13.0 * frequency st) * Math_sin (nx * Fin 27.0) * Fin 0.5
             + Fin 0.5
         | Sphere \<Rightarrow> sphereFactor st c
         | Pyramid \<Rightarrow> pyramidFactor st c
         | Torus \<Rightarrow> torusFactor st c
         | Pagoda \<Rightarrow> pagodaFactor st c
         | Vase \<Rightarrow> vaseFactor st c
         | Canyon \<Rightarrow> canyonFactor st c
         | Steps \<Rightarrow> stepsFactor st c
         | Fractal \<Rightarrow> fractalFactor st c
         | Custom \<Rightarrow> customFactor ev st c
         | Image \<Rightarrow> imageFactor st c
         | Sketch \<Rightarrow> sketchFactor st c)
      else Fin 0)"

subsection \<open>Strip builder\<close>

text \<open>
  This file names the kinematic vectors \<open>vecTread\<close>, \<open>normTread\<close>, \<open>vecRiser\<close> and
  \<open>normRiser\<close>; they are \<open>vecFloor\<close>, \<open>normFloor\<close>, \<open>vecWall\<close> and \<open>normWall\<close> above.
\<close>

definition maxSafe :: "AppState \<Rightarrow> num" where
  "maxSafe st = height (paperSize st) / Fin 2 - Fin 5"

definition effAmplitude :: "Evaluator \<Rightarrow> AppState \<Rightarrow> nat \<Rightarrow> num" where
  "effAmplitude ev st c =
     Math_min (Math_abs (amplitude st * shapeFactor ev st c)) (maxSafe st)"

definition isFlat :: "Evaluator \<Rightarrow> AppState \<Rightarrow> nat \<Rightarrow> bool" where
  "isFlat ev st c = (effAmplitude ev st c < Fin 0.5)"

definition runOf :: "Evaluator \<Rightarrow> AppState \<Rightarrow> nat \<Rightarrow> num" where
  "runOf ev st c = (if isFlat ev st c then Fin 0 else effAmplitude ev st c)"

definition riseOf :: "Evaluator \<Rightarrow> AppState \<Rightarrow> nat \<Rightarrow> num" where
  "riseOf ev st c = (if isFlat ev st c then Fin 0 else effAmplitude ev st c)"

definition numSteps :: "Evaluator \<Rightarrow> AppState \<Rightarrow> nat \<Rightarrow> nat" where
  "numSteps ev st c = (if isFlat ev st c then 1 else rows st)"

definition quadAt :: "num \<Rightarrow> num \<Rightarrow> Vector3 \<Rightarrow> Vector3 \<Rightarrow> Vector3 \<Rightarrow> Cmd" where
  "quadAt xl xr p q n =
     Segment (Vector3 xl (vy p) (vz p)) (Vector3 xr (vy p) (vz p))
             (Vector3 xr (vy q) (vz q)) (Vector3 xl (vy q) (vz q)) n"

text \<open>
  One pass of the step loop: a riser, the mountain line, a tread, the valley line unless
  this is the last step.
\<close>

definition stepBody ::
  "Evaluator \<Rightarrow> AppState \<Rightarrow> nat \<Rightarrow> nat \<Rightarrow> Vector3 \<times> num \<times> Cmd list
   \<Rightarrow> Vector3 \<times> num \<times> Cmd list" where
  "stepBody ev st c i s =
     (case s of (currentPos, currentPaperY, out) \<Rightarrow>
      let xl = xLeft st c; xr = xRight st c;
          n = of_count (numSteps ev st c);
          stepRun = runOf ev st c / n;
          stepRise = riseOf ev st c / n;
          pEnd = addScaledVector currentPos (vecWall st) stepRise;
          riser = quadAt xl xr currentPos pEnd (normWall st);
          paperY1 = currentPaperY + stepRise;
          mountain = Line (mkLine xl paperY1 xr paperY1 Mountain);
          pEndT = addScaledVector pEnd vecFloor stepRun;
          tread = quadAt xl xr pEnd pEndT normFloor;
          paperY2 = paperY1 + stepRun;
          valley = (if of_count i < n - Fin 1
                    then [Line (mkLine xl paperY2 xr paperY2 Valley)] else [])
      in (pEndT, paperY2, out @ [riser, mountain, tread] @ valley))"

definition stepLoop :: "Evaluator \<Rightarrow> AppState \<Rightarrow> nat \<Rightarrow> Vector3 \<times> num \<times> Cmd list" where
  "stepLoop ev st c =
     fold (stepBody ev st c) [0..<numSteps ev st c]
       (Vector3 (Fin 0) (- runOf ev st c) (Fin 0), - runOf ev st c, [])"

definition column :: "Evaluator \<Rightarrow> AppState \<Rightarrow> nat \<Rightarrow> Cmd list" where
  "column ev st c =
     (let xl = xLeft st c; xr = xRight st c; h = height (paperSize st);
          rise = riseOf ev st c;
          yPaperBottom = (- h) / Fin 2;
          yAnchorFloor = - runOf ev st c;
          floorFrame =
            Segment (Vector3 xl yPaperBottom (Fin 0)) (Vector3 xr yPaperBottom (Fin 0))
                    (Vector3 xr yAnchorFloor (Fin 0)) (Vector3 xl yAnchorFloor (Fin 0))
                    normFloor;
          pWallStart = addScaledVector zeroVector (vecWall st) rise;
          pWallEnd = addScaledVector zeroVector (vecWall st) (h / Fin 2);
          wallFrame = quadAt xl xr pWallStart pWallEnd (normWall st)
      in if \<not> isFlat ev st c then
           (case stepLoop ev st c of (currentPos, currentPaperY, out) \<Rightarrow>
              [floorFrame, wallFrame,
               Line (mkLine xl yAnchorFloor xl rise Cut),
               Line (mkLine xr yAnchorFloor xr rise Cut),
               Line (mkLine xl yAnchorFloor xr yAnchorFloor Valley)]
              @ out @ [Line (mkLine xl currentPaperY xr currentPaperY Valley)])
         else
           [floorFrame, wallFrame,
            Segment (Vector3 xl yAnchorFloor (Fin 0)) (Vector3 xr yAnchorFloor (Fin 0))
                    (Vector3 xr (vy pWallStart) (vz pWallStart))
                    (Vector3 xl (vy pWallStart) (vz pWallStart)) normFloor,
            Line (mkLine xl (Fin 0) xr (Fin 0) Valley)])"

definition runColumns :: "Evaluator \<Rightarrow> AppState \<Rightarrow> Buffers" where
  "runColumns ev st =
     foldl (exec (thicknessOf st)) emptyBuffers (concat (map (column ev st) [0..<cols st]))"

text \<open>
  The result of this file has no statistics; it is the four buffers, positions and
  normals as \<open>new Float32Array(positions)\<close> and \<open>new Float32Array(normals)\<close>.
\<close>

definition generateKirigamiGeometry :: "Evaluator \<Rightarrow> AppState \<Rightarrow> Buffers" where
  "generateKirigamiGeometry ev st =
     (let b = runColumns ev st in
      b\<lparr>positions := map toFloat32 (positions b), normals := map toFloat32 (normals b)\<rparr>)"

section \<open>Notions used to state the properties\<close>

text \<open>
  Structural well-formedness of the mesh buffers: as many normals as positions, whole
  vertices, whole triangles, every index below the number of vertices.
\<close>

definition wellFormed :: "Buffers \<Rightarrow> bool" where
  "wellFormed b =
     (length (normals b) = length (positions b) \<and>
      length (positions b) mod 3 = 0 \<and>
      length (indices b) mod 3 = 0 \<and>
      list_all (\<lambda>i. i < length (positions b) div 3) (indices b))"

text \<open>The sum of a list of numbers, added in list order from \<open>0\<close>.\<close>

definition sumNums :: "num list \<Rightarrow> num" where
  "sumNums xs = foldl (+) (Fin 0) xs"

text \<open>The Euclidean length of a line, written with products.\<close>

definition euclideanLength :: "BlueprintLine \<Rightarrow> num" where
  "euclideanLength l =
     Math_sqrt ((lx2 l - lx1 l) * (lx2 l - lx1 l) + (ly2 l - ly1 l) * (ly2 l - ly1 l))"

definition isFoldLine :: "BlueprintLine \<Rightarrow> bool" where
  "isFoldLine l = (ltype l = Mountain \<or> ltype l = Valley)"

definition isCutLine :: "BlueprintLine \<Rightarrow> bool" where
  "isCutLine l = (ltype l = Cut)"

text \<open>A4 paper, and a sheet with a single (fixed) column.\<close>

definition PAPER_A4 :: PaperSize where
  "PAPER_A4 = \<lparr>width = Fin 210, height = Fin 297, margin = Fin 20\<rparr>"

definition oneColumnConfig :: AppState where
  "oneColumnConfig =
     \<lparr>algorithm = Stairs, rows = 2, cols = 1, amplitude = Fin 50, frequency = Fin 1,
      spread = Fin 50, curvature = Fin 1, roughness = Fin 0, fractalOctaves = 3,
      customFormula = ''0'', sketchPoints = [], foldProgress = Fin 0,
      paperThickness = Fin 0.2, paperSize = PAPER_A4, heightMapData = None\<rparr>"

text \<open>
  The part of the step loop's state that the flat pattern reads: the running paper
  ordinate and the lines emitted so far.
\<close>

definition paperView :: "Vector3 \<times> num \<times> Cmd list \<Rightarrow> num \<times> BlueprintLine list" where
  "paperView s = (case s of (p, y, out) \<Rightarrow> (y, linesOf out))"

text \<open>Loop outputs never contain a cut line.\<close>

definition noCut :: "Vector3 \<times> num \<times> Cmd list \<Rightarrow> bool" where
  "noCut s = (case s of (p, y, out) \<Rightarrow> list_all (\<lambda>l. ltype l \<noteq> Cut) (linesOf out))"

definition isMountainLine :: "BlueprintLine \<Rightarrow> bool" where
  "isMountainLine l = (ltype l = Mountain)"

definition isValleyLine :: "BlueprintLine \<Rightarrow> bool" where
  "isValleyLine l = (ltype l = Valley)"

text \<open>The segments among the calls of a column, and the normals they are built with.\<close>

fun segmentsOf :: "Cmd list \<Rightarrow> Cmd list" where
  "segmentsOf [] = []"
| "segmentsOf (Segment v0 v1 v2 v3 n # cs) = Segment v0 v1 v2 v3 n # segmentsOf cs"
| "segmentsOf (Line l # cs) = segmentsOf cs"

fun segmentNormals :: "Cmd list \<Rightarrow> Vector3 list" where
  "segmentNormals [] = []"
| "segmentNormals (Segment v0 v1 v2 v3 n # cs) = n # segmentNormals cs"
| "segmentNormals (Line l # cs) = segmentNormals cs"

text \<open>
  The end-to-end scenario: three columns, two rows, amplitude 50, the \<open>stairs\<close>
  profile, fully folded, on A4 paper. \<open>scenarioConfig\<close> fills the remaining fields with
  the application's initial state.
\<close>

definition scenario :: "AppState \<Rightarrow> bool" where
  "scenario st =
     (algorithm st = Stairs \<and> rows st = 2 \<and> cols st = 3 \<and> amplitude st = Fin 50 \<and>
      foldProgress st = Fin 1 \<and> paperSize st = PAPER_A4)"

definition scenarioConfig :: AppState where
  "scenarioConfig =
     \<lparr>algorithm = Stairs, rows = 2, cols = 3, amplitude = Fin 50, frequency = Fin 1.0,
      spread = Fin 300, curvature = Fin 2.0, roughness = Fin 0.0, fractalOctaves = 3,
      customFormula = ''Math.sin(x * 10 * f) * Math.cos(x * 5)'',
      sketchPoints = [(Fin 0, Fin 0), (Fin 0.5, Fin 0.8), (Fin 1, Fin 0)],
      foldProgress = Fin 1, paperThickness = Fin 0.2, paperSize = PAPER_A4,
      heightMapData = None\<rparr>"

text \<open>An evaluator for configurations that never run a formula.\<close>

definition noFormula :: Evaluator where
  "noFormula = (\<lambda>src x f i. CompileError)"


text \<open>The scenario with an amplitude of 140, above half the paper height less the margin.\<close>

definition tallConfig :: AppState where
  "tallConfig = scenarioConfig\<lparr>amplitude := Fin 140\<rparr>"

text \<open>
  The language's evaluation of four formula texts, for concrete runs of the \<open>custom\<close>
  variant: \<open>NaN\<close> yields \<open>NaN\<close>, \<open>1/0\<close> yields \<open>+Infinity\<close>, \<open>null.x\<close> throws when run,
  and \<open>(\<close> does not compile; any other text stands for the constant \<open>0\<close>.
\<close>

definition sampleEvaluator :: Evaluator where
  "sampleEvaluator src x f i =
     (if src = ''NaN'' then Value NaN
      else if src = ''1/0'' then Value PInf
      else if src = ''null.x'' then BodyThrows
      else if src = ''('' then CompileError
      else Value (Fin 0))"

definition customConfig :: "string \<Rightarrow> AppState" where
  "customConfig src = scenarioConfig\<lparr>algorithm := Custom, customFormula := src\<rparr>"

definition formulaOutcome :: "Evaluator \<Rightarrow> AppState \<Rightarrow> nat \<Rightarrow> FormulaOutcome" where
  "formulaOutcome ev st c = ev (customFormula st) (normX st c) (frequency st) (of_count c)"

text \<open>A number in the closed interval from 0 to 1.\<close>

definition inUnit :: "num \<Rightarrow> bool" where
  "inUnit a = (case a of Fin r \<Rightarrow> 0 \<le> r \<and> r \<le> 1 | _ \<Rightarrow> False)"

text \<open>
  A pixel buffer as the platform provides it: at least one pixel each way, four bytes
  per pixel, every byte at most 255.
\<close>

definition wellFormedImage :: "ImageData \<Rightarrow> bool" where
  "wellFormedImage img =
     (0 < img_width img \<and> 0 < img_height img \<and>
      length (img_data img) = 4 * img_width img * img_height img \<and>
      list_all (\<lambda>b. b \<le> 255) (img_data img))"

definition finitePoints :: "(num \<times> num) list \<Rightarrow> bool" where
  "finitePoints pts = list_all (\<lambda>p. isFinite (fst p) \<and> isFinite (snd p)) pts"

definition finiteTriple :: "num \<times> num \<times> num \<Rightarrow> bool" where
  "finiteTriple s = (case s of (v, a, q) \<Rightarrow> isFinite v \<and> isFinite a \<and> isFinite q)"

text \<open>
  A finite number of magnitude at most a million: products of such a number with the
  constants of the profile formulas are far from the largest double.
\<close>

definition bounded :: "num \<Rightarrow> bool" where
  "bounded a = (case a of Fin r \<Rightarrow> \<bar>r\<bar> \<le> 1000000 | _ \<Rightarrow> False)"

text \<open>
  Control points that span the unit interval: coordinates between 0 and 1, the first
  abscissa 0 and the last 1 (as in the application's initial state). The search loop
  then stops at a span that contains the sample, and the interpolation parameter stays
  between 0 and 1. Fewer than two points are always accepted: the profile is then the
  constant 0.5.
\<close>

definition unitSketch :: "(num \<times> num) list \<Rightarrow> bool" where
  "unitSketch pts =
     (list_all (\<lambda>p. inUnit (fst p) \<and> inUnit (snd p)) pts \<and>
      (length pts < 2 \<or> (fst (hd pts) = Fin 0 \<and> fst (last pts) = Fin 1)))"

text \<open>
  The parameter ranges under which each variant of the profile stays between 0 and 1.
  Per variant: the sign conditions its formula needs; no perturbation by a positive
  roughness for the primitives it can push out of range; and, where the formula
  multiplies the frequency into the argument of a sine, a cosine or a floor, a bounded
  frequency (for \<open>fractal\<close>, whose frequency doubles with each octave, at most 1000
  octaves too), so that the argument is finite on the machine as it is here. A raster
  is well-formed and has fewer than \<open>2^53\<close> bytes, so that its indices are computed
  exactly.
\<close>

definition rangeCondition :: "AppState \<Rightarrow> bool" where
  "rangeCondition st =
     (case algorithm st of
        Stairs \<Rightarrow> True
      | Sine \<Rightarrow> bounded (frequency st)
      | Gaussian \<Rightarrow> isFinite (spread st) \<and> \<not> spread st < Fin 0
      | Ripple \<Rightarrow> bounded (frequency st)
      | Voronoi \<Rightarrow> bounded (frequency st)
      | Noise \<Rightarrow> bounded (frequency st)
      | Fractal \<Rightarrow> bounded (frequency st) \<and> fractalOctaves st \<le> 1000
      | Custom \<Rightarrow> True
      | Sphere \<Rightarrow> isFinite (frequency st) \<and> isFinite (curvature st)
                    \<and> \<not> Fin 0 < roughness st
      | Pyramid \<Rightarrow> isFinite (frequency st) \<and> isFinite (curvature st)
                     \<and> \<not> Fin 1 < roughness st
      | Steps \<Rightarrow> bounded (frequency st) \<and> \<not> frequency st < Fin 0
                   \<and> isFinite (curvature st) \<and> \<not> curvature st < Fin 0
      | Torus \<Rightarrow> isFinite (frequency st) \<and> isFinite (curvature st)
                   \<and> \<not> Fin 0 < roughness st
      | Pagoda \<Rightarrow> bounded (frequency st) \<and> \<not> frequency st < Fin 0
                    \<and> isFinite (curvature st) \<and> \<not> curvature st < Fin 0
                    \<and> \<not> Fin 0 < roughness st
      | Vase \<Rightarrow> bounded (frequency st) \<and> isFinite (curvature st)
                  \<and> \<not> Fin 0 < roughness st
      | Canyon \<Rightarrow> isFinite (frequency st) \<and> isFinite (curvature st)
                    \<and> \<not> curvature st < Fin 0 \<and> \<not> Fin 0 < roughness st
      | Image \<Rightarrow> (case heightMapData st of
                      None \<Rightarrow> True
                    | Some img \<Rightarrow> wellFormedImage img
                                  \<and> length (img_data img) < 2 ^ 53)
      | Sketch \<Rightarrow> unitSketch (sketchPoints st))"

text \<open>
  Two columns, the \<open>vase\<close> profile and full roughness: column 1 sits at the centre of
  the sheet. And the application's initial profile, \<open>sphere\<close>, on three columns.
\<close>

definition vaseConfig :: AppState where
  "vaseConfig = scenarioConfig\<lparr>algorithm := Vase, cols := 2, roughness := Fin 1\<rparr>"

definition sphereConfig :: AppState where
  "sphereConfig = scenarioConfig\<lparr>algorithm := Sphere\<rparr>"

text \<open>
  What the guard of \<open>pushQuad\<close> ensures of a pair of buffers: they are made of whole
  quads (twelve numbers each), the normals are as many as the positions, the first
  number of every quad of positions (the x of its first vertex) is not \<open>NaN\<close>, and the
  first number of every triple of normals (the x of a normal) is not \<open>NaN\<close>.
\<close>

definition quadsGuarded :: "num list \<Rightarrow> num list \<Rightarrow> bool" where
  "quadsGuarded ps ns =
     (length ps mod 12 = 0 \<and> length ns = length ps \<and>
      list_all (\<lambda>k. \<not> isNaN (ps ! (12 * k))) [0..<length ps div 12] \<and>
      list_all (\<lambda>j. \<not> isNaN (ns ! (3 * j))) [0..<length ns div 3])"

text \<open>
  A sheet of infinite height; a sheet of the finite height \<open>2^129\<close>; a fold progress
  that is not a number; an infinite amplitude.
\<close>

definition infiniteHeightConfig :: AppState where
  "infiniteHeightConfig = oneColumnConfig\<lparr>paperSize := PAPER_A4\<lparr>height := PInf\<rparr>\<rparr>"

definition hugeHeightConfig :: AppState where
  "hugeHeightConfig = oneColumnConfig\<lparr>paperSize := PAPER_A4\<lparr>height := Fin (2 ^ 129)\<rparr>\<rparr>"

definition nanFoldConfig :: AppState where
  "nanFoldConfig = oneColumnConfig\<lparr>foldProgress := NaN\<rparr>"

definition infiniteAmplitudeConfig :: AppState where
  "infiniteAmplitudeConfig = oneColumnConfig\<lparr>amplitude := PInf\<rparr>"

text \<open>
  The vase profile within the ranges of the application's controls: 101 columns,
  frequency 1, curvature 2, roughness 1.
\<close>

definition vaseSliderConfig :: AppState where
  "vaseSliderConfig = scenarioConfig\<lparr>algorithm := Vase, cols := 101, roughness := Fin 1\<rparr>"

section \<open>Well-formed buffers\<close>

lemma wellFormed_empty: "wellFormed emptyBuffers"
  by (simp add: wellFormed_def emptyBuffers_def)

lemma wellFormed_pushQuad:
  assumes "wellFormed b"
  shows "wellFormed (pushQuad b v0 v1 v2 v3 n)"
proof (cases "isNaN (vx v0) \<or> isNaN (vx n)")
  case True
  then show ?thesis using assms by (simp add: pushQuad_def)
next
  case False
  define q where "q = pushQuad b v0 v1 v2 v3 n"
  obtain k where k: "length (positions b) = 3 * k"
    using assms by (auto simp: wellFormed_def mod_eq_0_iff_dvd elim: dvdE)
  have lp: "length (positions q) = 3 * (k + 4)"
    using False k by (simp add: q_def pushQuad_def Let_def)
  have ln: "length (normals q) = 3 * (k + 4)"
    using False k assms by (simp add: q_def pushQuad_def wellFormed_def Let_def)
  have "length (indices b) mod 3 = 0"
    using assms by (simp add: wellFormed_def)
  moreover have "length (indices q) = length (indices b) + 6"
    using False by (simp add: q_def pushQuad_def Let_def)
  ultimately have li: "length (indices q) mod 3 = 0"
    by presburger
  have iq: "indices q = indices b @ [k, k + 1, k + 2, k, k + 2, k + 3]"
    using False k by (simp add: q_def pushQuad_def Let_def)
  have old: "\<forall>i \<in> set (indices b). i < k"
    using assms k by (simp add: wellFormed_def list_all_iff)
  have "\<forall>i \<in> set (indices q). i < k + 4"
    unfolding iq using old by auto
  then have "list_all (\<lambda>i. i < length (positions q) div 3) (indices q)"
    unfolding lp by (simp add: list_all_iff)
  with lp ln li show ?thesis
    unfolding q_def wellFormed_def by simp
qed

lemma wellFormed_pushVolumetricSegment:
  "wellFormed b \<Longrightarrow> wellFormed (pushVolumetricSegment b v0 v1 v2 v3 n th l r)"
  by (simp add: pushVolumetricSegment_def Let_def wellFormed_pushQuad)

lemma wellFormed_pushVolumetricSegment2:
  "wellFormed b \<Longrightarrow> wellFormed (pushVolumetricSegment2 b v0 v1 v2 v3 n th l r)"
  by (simp add: pushVolumetricSegment2_def Let_def wellFormed_pushQuad)

lemma wellFormed_line:
  "wellFormed b \<Longrightarrow> wellFormed (b\<lparr>blueprintLines := ls\<rparr>)"
  by (simp add: wellFormed_def)

lemma wellFormed_exec: "wellFormed b \<Longrightarrow> wellFormed (exec th b cmd)"
  by (cases cmd) (simp_all add: wellFormed_pushVolumetricSegment wellFormed_line)

lemma wellFormed_exec2: "wellFormed b \<Longrightarrow> wellFormed (exec2 th b cmd)"
  by (cases cmd) (simp_all add: wellFormed_pushVolumetricSegment2 wellFormed_line)

lemma wellFormed_foldl_exec:
  "wellFormed b \<Longrightarrow> wellFormed (foldl (exec th) b cmds)"
  by (induction cmds arbitrary: b) (simp_all add: wellFormed_exec)

lemma wellFormed_foldl_exec2:
  "wellFormed b \<Longrightarrow> wellFormed (foldl (exec2 th) b cmds)"
  by (induction cmds arbitrary: b) (simp_all add: wellFormed_exec2)

lemma wellFormed_runColumns2: "wellFormed (runColumns2 st)"
  by (simp add: runColumns2_def wellFormed_foldl_exec2 wellFormed_empty)

lemma gen2_fields:
  "g_positions (generateKirigamiGeometry2 st) = map toFloat32 (positions (runColumns2 st))"
  "g_normals (generateKirigamiGeometry2 st) = map toFloat32 (normals (runColumns2 st))"
  "g_indices (generateKirigamiGeometry2 st) = indices (runColumns2 st)"
  "g_blueprintLines (generateKirigamiGeometry2 st) = blueprintLines (runColumns2 st)"
  by (simp_all add: generateKirigamiGeometry2_def Let_def split: prod.splits)

lemma gen_fields:
  "positions (generateKirigamiGeometry ev st) = map toFloat32 (positions (runColumns ev st))"
  "normals (generateKirigamiGeometry ev st) = map toFloat32 (normals (runColumns ev st))"
  "indices (generateKirigamiGeometry ev st) = indices (runColumns ev st)"
  "blueprintLines (generateKirigamiGeometry ev st) = blueprintLines (runColumns ev st)"
  by (simp_all add: generateKirigamiGeometry_def Let_def)

lemma wellFormed_runColumns: "wellFormed (runColumns ev st)"
  by (simp add: runColumns_def wellFormed_foldl_exec wellFormed_empty)

lemma oneColumn_has_index:
  "0 \<in> set (indices (runColumns2 oneColumnConfig))"
  by (simp add: runColumns2_def column2_def oneColumnConfig_def PAPER_A4_def isPopup_def
      fixedColumn2_def floorSegment2_def wallSegment2_def xLeft_def xRight_def xBase_def
      stripWidth_def KERF_def of_count_def minus_num_def normFloor_def normWall_def
      vecWall_def foldAngleRad_def Math_PI_def zeroVector_def mkLine_def thicknessOf_def
      js_or_def emptyBuffers_def pushVolumetricSegment2_def pushQuad_def Let_def
      normalize_def divideScalar_def vlength_def)

text \<open>
  C10. For every configuration the output buffers are well-formed: \<open>normals\<close> is as long
  as \<open>positions\<close>, both \<open>positions.length\<close> and \<open>indices.length\<close> are multiples of 3,
  and every index is below \<open>positions.length / 3\<close>. This holds for the generator with
  statistics and for the one of \<open>utils/mathEngine.ts\<close>, which share \<open>pushQuad\<close>.
\<close>

theorem buffers_well_formed:
  "length (g_normals (generateKirigamiGeometry2 st))
     = length (g_positions (generateKirigamiGeometry2 st)) \<and>
   3 dvd length (g_positions (generateKirigamiGeometry2 st)) \<and>
   3 dvd length (g_indices (generateKirigamiGeometry2 st)) \<and>
   (\<forall>i \<in> set (g_indices (generateKirigamiGeometry2 st)).
      i < length (g_positions (generateKirigamiGeometry2 st)) div 3) \<and>
   length (normals (generateKirigamiGeometry ev st))
     = length (positions (generateKirigamiGeometry ev st)) \<and>
   3 dvd length (positions (generateKirigamiGeometry ev st)) \<and>
   3 dvd length (indices (generateKirigamiGeometry ev st)) \<and>
   (\<forall>i \<in> set (indices (generateKirigamiGeometry ev st)).
      i < length (positions (generateKirigamiGeometry ev st)) div 3)"
  using wellFormed_runColumns2 [of st] wellFormed_runColumns [of ev st]
  by (simp add: gen2_fields gen_fields wellFormed_def list_all_iff mod_eq_0_iff_dvd)

theorem buffers_well_formed_witness:
  "0 \<in> set (g_indices (generateKirigamiGeometry2 oneColumnConfig)) \<and>
   0 < length (g_positions (generateKirigamiGeometry2 oneColumnConfig)) div 3"
  using buffers_well_formed [of oneColumnConfig] oneColumn_has_index
  by (simp add: gen2_fields)

section \<open>Statistics\<close>

lemma Math_pow_two: "Math_pow a (Fin 2) = a * a"
proof (cases a)
  case (Fin x)
  have "x \<noteq> 0 \<Longrightarrow> \<bar>x\<bar> powr 2 = x * x"
    by (simp add: powr_numeral power2_eq_square)
  moreover have "0 < x \<Longrightarrow> x powr 2 = x * x"
    by (simp add: powr_numeral power2_eq_square)
  ultimately show ?thesis using Fin by (simp add: odd_real_def)
qed (simp_all add: odd_real_def)

lemma lineLength_euclidean: "lineLength l = euclideanLength l"
  by (simp add: lineLength_def euclideanLength_def Math_pow_two del: Math_pow.simps)

lemma foldl_statsStep:
  "foldl statsStep (a, b) ls =
     (foldl (+) a (map lineLength (filter isCutLine ls)),
      foldl (+) b (map lineLength (filter isFoldLine ls)))"
  by (induction ls arbitrary: a b)
     (simp_all add: statsStep_def Let_def isCutLine_def isFoldLine_def)

lemma three_times_div:
  assumes "n mod 3 = (0::nat)"
  shows "of_count n / Fin 3 = of_count (n div 3)"
proof -
  obtain k where "n = 3 * k" using assms by (auto simp: mod_eq_0_iff_dvd elim: dvdE)
  then show ?thesis by (simp add: of_count_def)
qed

text \<open>
  C9. The statistics of the output: the triangle count is \<open>indices.length / 3\<close> (a whole
  number, three indices per triangle), the total cut length is the sum of the Euclidean
  lengths of the lines of type cut, and the total fold length is the sum of the Euclidean
  lengths of the lines of type mountain or valley.
\<close>

theorem stats_are_sums:
  "polyCount (g_stats (generateKirigamiGeometry2 st))
     = of_count (length (g_indices (generateKirigamiGeometry2 st))) / Fin 3 \<and>
   polyCount (g_stats (generateKirigamiGeometry2 st))
     = of_count (length (g_indices (generateKirigamiGeometry2 st)) div 3) \<and>
   3 * (length (g_indices (generateKirigamiGeometry2 st)) div 3)
     = length (g_indices (generateKirigamiGeometry2 st)) \<and>
   totalCutLength (g_stats (generateKirigamiGeometry2 st))
     = sumNums (map euclideanLength
         (filter isCutLine (g_blueprintLines (generateKirigamiGeometry2 st)))) \<and>
   totalFoldLength (g_stats (generateKirigamiGeometry2 st))
     = sumNums (map euclideanLength
         (filter isFoldLine (g_blueprintLines (generateKirigamiGeometry2 st))))"
proof -
  have m: "length (indices (runColumns2 st)) mod 3 = 0"
    using wellFormed_runColumns2 [of st] by (simp add: wellFormed_def)
  have e: "lineLength = euclideanLength"
    by (rule ext) (rule lineLength_euclidean)
  have d: "3 * (length (indices (runColumns2 st)) div 3) = length (indices (runColumns2 st))"
    using m by presburger
  show ?thesis
    using d three_times_div [OF m]
    by (simp add: generateKirigamiGeometry2_def Let_def foldl_statsStep sumNums_def e)
qed

section \<open>The flat pattern\<close>

lemma blueprintLines_pushQuad [simp]:
  "blueprintLines (pushQuad b v0 v1 v2 v3 n) = blueprintLines b"
  by (simp add: pushQuad_def Let_def)

lemma blueprintLines_pushVolumetricSegment [simp]:
  "blueprintLines (pushVolumetricSegment b v0 v1 v2 v3 n th l r) = blueprintLines b"
  by (simp add: pushVolumetricSegment_def Let_def)

lemma blueprintLines_pushVolumetricSegment2 [simp]:
  "blueprintLines (pushVolumetricSegment2 b v0 v1 v2 v3 n th l r) = blueprintLines b"
  by (simp add: pushVolumetricSegment2_def Let_def)

lemma linesOf_append [simp]: "linesOf (xs @ ys) = linesOf xs @ linesOf ys"
  by (induction xs rule: linesOf.induct) simp_all

lemma linesOf_concat: "linesOf (concat xss) = concat (map linesOf xss)"
  by (induction xss) simp_all

lemma blueprintLines_foldl_exec:
  "blueprintLines (foldl (exec th) b cmds) = blueprintLines b @ linesOf cmds"
  by (induction cmds arbitrary: b rule: linesOf.induct) simp_all

lemma blueprintLines_foldl_exec2:
  "blueprintLines (foldl (exec2 th) b cmds) = blueprintLines b @ linesOf cmds"
  by (induction cmds arbitrary: b rule: linesOf.induct) simp_all

lemma blueprintLines_runColumns2:
  "blueprintLines (runColumns2 st) = concat (map (\<lambda>c. linesOf (column2 st c)) [0..<cols st])"
  by (simp add: runColumns2_def blueprintLines_foldl_exec2 emptyBuffers_def linesOf_concat
      comp_def)

lemma blueprintLines_runColumns:
  "blueprintLines (runColumns ev st) =
     concat (map (\<lambda>c. linesOf (column ev st c)) [0..<cols st])"
  by (simp add: runColumns_def blueprintLines_foldl_exec emptyBuffers_def linesOf_concat
      comp_def)

text \<open>What does not read the fold progress.\<close>

lemma fold_free_x [simp]:
  "xLeft (st\<lparr>foldProgress := t\<rparr>) c = xLeft st c"
  "xRight (st\<lparr>foldProgress := t\<rparr>) c = xRight st c"
  "normX (st\<lparr>foldProgress := t\<rparr>) c = normX st c"
  "steps2 (st\<lparr>foldProgress := t\<rparr>) = steps2 st"
  by (simp_all add: xLeft_def xRight_def xBase_def stripWidth_def normX_def steps2_def)

lemma fold_free_radius2 [simp]:
  "profileRadius2 (st\<lparr>foldProgress := t\<rparr>) c = profileRadius2 st c"
  by (cases "algorithm st") (simp_all add: profileRadius2_def rawProfileRadius2_def)

lemma paperView_stepBody2:
  assumes "paperView s = paperView s'"
  shows "paperView (stepBody2 (st\<lparr>foldProgress := t\<rparr>) c i s) = paperView (stepBody2 st c i s')"
  using assms
  by (cases s; cases s') (simp add: paperView_def stepBody2_def Let_def)

lemma paperView_fold_stepBody2:
  assumes "paperView s = paperView s'"
  shows "paperView (fold (stepBody2 (st\<lparr>foldProgress := t\<rparr>) c) is s)
         = paperView (fold (stepBody2 st c) is s')"
  using assms
  by (induction "is" arbitrary: s s') (simp_all add: paperView_stepBody2)

lemma paperView_stepLoop2:
  "paperView (stepLoop2 (st\<lparr>foldProgress := t\<rparr>) c) = paperView (stepLoop2 st c)"
  unfolding stepLoop2_def fold_free_x fold_free_radius2
  by (rule paperView_fold_stepBody2) (simp add: paperView_def)

lemma linesOf_column2_fold_free:
  "linesOf (column2 (st\<lparr>foldProgress := t\<rparr>) c) = linesOf (column2 st c)"
proof -
  obtain p y out where a: "stepLoop2 (st\<lparr>foldProgress := t\<rparr>) c = (p, y, out)"
    by (cases "stepLoop2 (st\<lparr>foldProgress := t\<rparr>) c") auto
  obtain p' y' out' where b: "stepLoop2 st c = (p', y', out')"
    by (cases "stepLoop2 st c") auto
  have "linesOf out = linesOf out'"
    using paperView_stepLoop2 [where st = st and t = t and c = c] a b
    by (simp add: paperView_def)
  then show ?thesis
    using a b
    by (simp add: column2_def fixedColumn2_def passiveColumn2_def activeColumn2_def
        floorSegment2_def wallSegment2_def Let_def)
qed


lemma fold_free_factors [simp]:
  "sphereFactor (st\<lparr>foldProgress := t\<rparr>) c = sphereFactor st c"
  "pyramidFactor (st\<lparr>foldProgress := t\<rparr>) c = pyramidFactor st c"
  "torusFactor (st\<lparr>foldProgress := t\<rparr>) c = torusFactor st c"
  "pagodaFactor (st\<lparr>foldProgress := t\<rparr>) c = pagodaFactor st c"
  "vaseFactor (st\<lparr>foldProgress := t\<rparr>) c = vaseFactor st c"
  "canyonFactor (st\<lparr>foldProgress := t\<rparr>) c = canyonFactor st c"
  "stepsFactor (st\<lparr>foldProgress := t\<rparr>) c = stepsFactor st c"
  "fractalFactor (st\<lparr>foldProgress := t\<rparr>) c = fractalFactor st c"
  "customFactor ev (st\<lparr>foldProgress := t\<rparr>) c = customFactor ev st c"
  "imageFactor (st\<lparr>foldProgress := t\<rparr>) c = imageFactor st c"
  "sketchFactor (st\<lparr>foldProgress := t\<rparr>) c = sketchFactor st c"
  by (simp_all add: sphereFactor_def pyramidFactor_def torusFactor_def pagodaFactor_def
      vaseFactor_def canyonFactor_def stepsFactor_def fractalFactor_def customFactor_def
      imageFactor_def sketchFactor_def Let_def cong: option.case_cong FormulaOutcome.case_cong)

lemma fold_free_shapeFactor [simp]:
  "shapeFactor ev (st\<lparr>foldProgress := t\<rparr>) c = shapeFactor ev st c"
  by (cases "algorithm st") (simp_all add: shapeFactor_def Let_def)

lemma fold_free_amplitude [simp]:
  "effAmplitude ev (st\<lparr>foldProgress := t\<rparr>) c = effAmplitude ev st c"
  "isFlat ev (st\<lparr>foldProgress := t\<rparr>) c = isFlat ev st c"
  "runOf ev (st\<lparr>foldProgress := t\<rparr>) c = runOf ev st c"
  "riseOf ev (st\<lparr>foldProgress := t\<rparr>) c = riseOf ev st c"
  "numSteps ev (st\<lparr>foldProgress := t\<rparr>) c = numSteps ev st c"
  by (simp_all add: effAmplitude_def isFlat_def runOf_def riseOf_def numSteps_def maxSafe_def)

lemma paperView_stepBody:
  assumes "paperView s = paperView s'"
  shows "paperView (stepBody ev (st\<lparr>foldProgress := t\<rparr>) c i s)
         = paperView (stepBody ev st c i s')"
  using assms
  by (cases s; cases s') (simp add: paperView_def stepBody_def Let_def quadAt_def)

lemma paperView_fold_stepBody:
  assumes "paperView s = paperView s'"
  shows "paperView (fold (stepBody ev (st\<lparr>foldProgress := t\<rparr>) c) is s)
         = paperView (fold (stepBody ev st c) is s')"
  using assms
  by (induction "is" arbitrary: s s') (simp_all add: paperView_stepBody)

lemma paperView_stepLoop:
  "paperView (stepLoop ev (st\<lparr>foldProgress := t\<rparr>) c) = paperView (stepLoop ev st c)"
  unfolding stepLoop_def fold_free_amplitude
  by (rule paperView_fold_stepBody) (simp add: paperView_def)

lemma linesOf_column_fold_free:
  "linesOf (column ev (st\<lparr>foldProgress := t\<rparr>) c) = linesOf (column ev st c)"
proof -
  obtain p y out where a: "stepLoop ev (st\<lparr>foldProgress := t\<rparr>) c = (p, y, out)"
    by (cases "stepLoop ev (st\<lparr>foldProgress := t\<rparr>) c") auto
  obtain p' y' out' where b: "stepLoop ev st c = (p', y', out')"
    by (cases "stepLoop ev st c") auto
  have "y = y' \<and> linesOf out = linesOf out'"
    using paperView_stepLoop [where st = st and t = t and c = c and ev = ev] a b
    by (simp add: paperView_def)
  then show ?thesis
    using a b
    by (simp add: column_def Let_def quadAt_def)
qed

text \<open>
  C4. Two configurations that differ only in the fold progress give the same sequence of
  blueprint lines (types and endpoints), whatever the two fold values are; this holds
  for both engine files.
\<close>

theorem blueprint_independent_of_fold:
  "g_blueprintLines (generateKirigamiGeometry2 (st\<lparr>foldProgress := t1\<rparr>))
     = g_blueprintLines (generateKirigamiGeometry2 (st\<lparr>foldProgress := t2\<rparr>)) \<and>
   blueprintLines (generateKirigamiGeometry ev (st\<lparr>foldProgress := t1\<rparr>))
     = blueprintLines (generateKirigamiGeometry ev (st\<lparr>foldProgress := t2\<rparr>))"
  by (simp add: gen2_fields gen_fields blueprintLines_runColumns2
      blueprintLines_runColumns linesOf_column2_fold_free linesOf_column_fold_free)

section \<open>Cut lines\<close>

lemma noCut_stepBody2: "noCut s \<Longrightarrow> noCut (stepBody2 st c i s)"
  by (cases s) (simp add: noCut_def stepBody2_def Let_def mkLine_def)

lemma noCut_fold_stepBody2: "noCut s \<Longrightarrow> noCut (fold (stepBody2 st c) is s)"
  by (induction "is" arbitrary: s) (simp_all add: noCut_stepBody2)

lemma noCut_stepLoop2: "noCut (stepLoop2 st c)"
  unfolding stepLoop2_def by (rule noCut_fold_stepBody2) (simp add: noCut_def)

lemma noCut_stepBody: "noCut s \<Longrightarrow> noCut (stepBody ev st c i s)"
  by (cases s) (simp add: noCut_def stepBody_def Let_def mkLine_def quadAt_def)

lemma noCut_fold_stepBody: "noCut s \<Longrightarrow> noCut (fold (stepBody ev st c) is s)"
  by (induction "is" arbitrary: s) (simp_all add: noCut_stepBody)

lemma noCut_stepLoop: "noCut (stepLoop ev st c)"
  unfolding stepLoop_def by (rule noCut_fold_stepBody) (simp add: noCut_def)

lemma cut_line_column2:
  assumes "l \<in> set (linesOf (column2 st c))" and "ltype l = Cut"
  shows "isPopup c \<and> \<not> profileRadius2 st c < Fin 1 \<and>
         lx1 l = lx2 l \<and> (lx1 l = xLeft st c \<or> lx1 l = xRight st c)"
proof -
  obtain p y out where a: "stepLoop2 st c = (p, y, out)"
    by (cases "stepLoop2 st c") auto
  have "\<forall>k \<in> set (linesOf out). ltype k \<noteq> Cut"
    using noCut_stepLoop2 [of st c] a by (simp add: noCut_def list_all_iff)
  then show ?thesis
    using assms a
    by (auto simp: column2_def fixedColumn2_def passiveColumn2_def activeColumn2_def
        floorSegment2_def wallSegment2_def Let_def mkLine_def split: if_splits)
qed

lemma cut_line_column:
  assumes "l \<in> set (linesOf (column ev st c))" and "ltype l = Cut"
  shows "\<not> isFlat ev st c \<and> lx1 l = lx2 l \<and> (lx1 l = xLeft st c \<or> lx1 l = xRight st c)"
proof -
  obtain p y out where a: "stepLoop ev st c = (p, y, out)"
    by (cases "stepLoop ev st c") auto
  have "\<forall>k \<in> set (linesOf out). ltype k \<noteq> Cut"
    using noCut_stepLoop [of ev st c] a by (simp add: noCut_def list_all_iff)
  then show ?thesis
    using assms a
    by (auto simp: column_def Let_def mkLine_def quadAt_def split: if_splits)
qed

text \<open>An even column of the first file is flat when the amplitude is finite and the height is a number.\<close>

lemma even_column_flat:
  assumes "\<not> isPopup c" and "isFinite (amplitude st)" and "\<not> isNaN (height (paperSize st))"
  shows "isFlat ev st c"
proof -
  obtain a where a: "amplitude st = Fin a" using assms(2) by (cases "amplitude st") auto
  show ?thesis
    using assms(1,3) a
    by (cases "height (paperSize st)")
       (auto simp: isFlat_def effAmplitude_def shapeFactor_def maxSafe_def minus_num_def)
qed

section \<open>The end-to-end scenario\<close>

lemma upt2: "[0..<2] = [0, Suc 0]"
  by (simp add: upt_rec)

lemma upt3: "[0..<3] = [0, Suc 0, 2]"
  by (simp add: upt_rec)

lemma sqrt2_upper: "sqrt 2 < 3 / 2"
  by (rule real_less_lsqrt) (simp_all add: power2_eq_square)

lemma sqrt2_lower: "1 < sqrt 2"
  by simp

lemma scenario_dz: "1 < \<bar>50 - 25 * sqrt 2\<bar> * 100"
  using sqrt2_upper by simp

lemma scenario_dy: "1 < 2500 * sqrt 2"
proof -
  have "1 < sqrt 2" by simp
  then show ?thesis by linarith
qed

lemma scenario_roles: "\<not> isPopup 0" "isPopup 1" "\<not> isPopup 2" "isPopup (Suc 0)"
  by (simp_all add: isPopup_def)

lemma scenario_radius2:
  "scenario st \<Longrightarrow> profileRadius2 st c = Fin 50"
  by (simp add: scenario_def PAPER_A4_def profileRadius2_def rawProfileRadius2_def
      minus_num_def)

lemma scenario_stepLoop2_lines:
  assumes "scenario st"
  shows "map ltype (linesOf (snd (snd (stepLoop2 st 1)))) = [Valley, Mountain, Valley]"
  using assms scenario_dz scenario_dy
  by (simp add: scenario_radius2 stepLoop2_def stepBody2_def steps2_def upt2 scenario_def
      Let_def of_count_def Math_PI_def mkLine_def minus_num_def cos_45 sin_45)

lemma scenario_stepLoop2_normals:
  assumes "scenario st"
  shows "segmentNormals (snd (snd (stepLoop2 st 1)))
         = [normFloor, normWall st, normFloor, normWall st]"
  using assms scenario_dz scenario_dy
  by (simp add: scenario_radius2 stepLoop2_def stepBody2_def steps2_def upt2 scenario_def
      Let_def of_count_def Math_PI_def mkLine_def minus_num_def cos_45 sin_45)


lemmas scenario_eval2 =
  scenario_radius2 stepLoop2_def stepBody2_def steps2_def upt2 scenario_def
  Let_def of_count_def Math_PI_def mkLine_def minus_num_def cos_45 sin_45
  column2_def activeColumn2_def fixedColumn2_def floorSegment2_def wallSegment2_def
  scenario_roles PAPER_A4_def

lemma fixed_column2_segments:
  "\<not> isPopup c \<Longrightarrow> segmentsOf (column2 st c) = [floorSegment2 st c, wallSegment2 st c]"
  by (simp add: column2_def fixedColumn2_def floorSegment2_def wallSegment2_def Let_def)

lemma fixed_column2_line_types:
  "\<not> isPopup c \<Longrightarrow>
   map ltype (linesOf (column2 st c)) = [Spine, Spine, Valley, Spine, Spine]"
  by (simp add: column2_def fixedColumn2_def floorSegment2_def wallSegment2_def Let_def
      mkLine_def)

lemma scenario_column2_1_normals:
  assumes "scenario st"
  shows "segmentNormals (column2 st 1)
         = [normFloor, normFloor, normWall st, normFloor, normWall st, normWall st]"
  using assms scenario_dz scenario_dy
  by (simp add: scenario_eval2)

lemma scenario_column2_1_lines:
  assumes "scenario st"
  shows "map ltype (linesOf (column2 st 1)) = [Cut, Cut, Valley, Mountain, Valley]"
    and "filter isCutLine (linesOf (column2 st 1))
         = [mkLine (xLeft st 1) (Fin (- (297 / 2))) (xLeft st 1) (Fin (297 / 2)) Cut,
            mkLine (xRight st 1) (Fin (- (297 / 2))) (xRight st 1) (Fin (297 / 2)) Cut]"
  using assms scenario_dz scenario_dy
  by (simp_all add: scenario_eval2 isCutLine_def)


lemma count_by_type:
  "length (filter isMountainLine ls) = length (filter (\<lambda>t. t = Mountain) (map ltype ls))"
  "length (filter isValleyLine ls) = length (filter (\<lambda>t. t = Valley) (map ltype ls))"
  "length (filter isCutLine ls) = length (filter (\<lambda>t. t = Cut) (map ltype ls))"
  by (simp_all add: filter_map comp_def isMountainLine_def [abs_def]
      isValleyLine_def [abs_def] isCutLine_def [abs_def])

lemma no_cut_by_type:
  "Cut \<notin> set (map ltype ls) \<Longrightarrow> filter isCutLine ls = []"
  by (induction ls) (auto simp: isCutLine_def)

lemma scenario_blueprint2:
  assumes "scenario st"
  shows "g_blueprintLines (generateKirigamiGeometry2 st)
         = linesOf (column2 st 0) @ linesOf (column2 st 1) @ linesOf (column2 st 2)"
  using assms by (simp add: gen2_fields blueprintLines_runColumns2 scenario_def upt3)

text \<open>The same scenario in the engine of the first file.\<close>

lemma scenario_shape:
  "scenario st \<Longrightarrow> shapeFactor ev st c = (if isPopup c then Fin 1 else Fin 0)"
  by (simp add: scenario_def shapeFactor_def)

lemma scenario_amplitude:
  "scenario st \<Longrightarrow> effAmplitude ev st c = (if isPopup c then Fin 50 else Fin 0)"
  by (simp add: scenario_shape effAmplitude_def maxSafe_def scenario_def PAPER_A4_def
      minus_num_def)

lemma scenario_isFlat: "scenario st \<Longrightarrow> isFlat ev st c = (\<not> isPopup c)"
  by (simp add: isFlat_def scenario_amplitude)

lemma flat_column_segments:
  "isFlat ev st c \<Longrightarrow> length (segmentsOf (column ev st c)) = 3"
  by (simp add: column_def Let_def quadAt_def)

lemma flat_column_line_types:
  "isFlat ev st c \<Longrightarrow> map ltype (linesOf (column ev st c)) = [Valley]"
  by (simp add: column_def Let_def quadAt_def mkLine_def)

lemmas scenario_eval =
  scenario_roles column_def stepLoop_def stepBody_def
  numSteps_def runOf_def riseOf_def quadAt_def mkLine_def Let_def upt2 of_count_def
  minus_num_def

lemma scenario_column_1_normals:
  assumes s: "scenario st"
  shows "segmentNormals (column ev st 1)
         = [normFloor, normWall st, normWall st, normFloor, normWall st, normFloor]"
proof -
  have r: "rows st = 2" using s by (simp add: scenario_def)
  show ?thesis
    by (simp add: scenario_isFlat [OF s] scenario_amplitude [OF s] r scenario_eval)
qed

lemma scenario_column_1_lines:
  assumes s: "scenario st"
  shows "map ltype (linesOf (column ev st 1))
         = [Cut, Cut, Valley, Mountain, Valley, Mountain, Valley]"
    and "filter isCutLine (linesOf (column ev st 1))
         = [mkLine (xLeft st 1) (Fin (- 50)) (xLeft st 1) (Fin 50) Cut,
            mkLine (xRight st 1) (Fin (- 50)) (xRight st 1) (Fin 50) Cut]"
proof -
  have r: "rows st = 2" using s by (simp add: scenario_def)
  show "map ltype (linesOf (column ev st 1))
         = [Cut, Cut, Valley, Mountain, Valley, Mountain, Valley]"
    by (simp add: scenario_isFlat [OF s] scenario_amplitude [OF s] r scenario_eval)
  show "filter isCutLine (linesOf (column ev st 1))
         = [mkLine (xLeft st 1) (Fin (- 50)) (xLeft st 1) (Fin 50) Cut,
            mkLine (xRight st 1) (Fin (- 50)) (xRight st 1) (Fin 50) Cut]"
    by (simp add: scenario_isFlat [OF s] scenario_amplitude [OF s] r scenario_eval
        isCutLine_def)
qed

lemma scenario_blueprint:
  assumes "scenario st"
  shows "blueprintLines (generateKirigamiGeometry ev st)
         = linesOf (column ev st 0) @ linesOf (column ev st 1) @ linesOf (column ev st 2)"
  using assms
  by (simp add: gen_fields blueprintLines_runColumns scenario_def upt3)


lemma scenario_scenarioConfig: "scenario scenarioConfig"
  by (simp add: scenario_def scenarioConfig_def)

lemma scenario_cut_lines2:
  assumes s: "scenario st"
  shows "filter isCutLine (g_blueprintLines (generateKirigamiGeometry2 st))
       = [mkLine (xLeft st 1) (Fin (- (297 / 2))) (xLeft st 1) (Fin (297 / 2)) Cut,
          mkLine (xRight st 1) (Fin (- (297 / 2))) (xRight st 1) (Fin (297 / 2)) Cut]"
proof -
  have t0: "map ltype (linesOf (column2 st 0)) = [Spine, Spine, Valley, Spine, Spine]"
    and t2: "map ltype (linesOf (column2 st 2)) = [Spine, Spine, Valley, Spine, Spine]"
    by (simp_all add: fixed_column2_line_types isPopup_def)
  have c0: "filter isCutLine (linesOf (column2 st 0)) = []"
    and c2: "filter isCutLine (linesOf (column2 st 2)) = []"
    by (rule no_cut_by_type, simp add: t0, rule no_cut_by_type, simp add: t2)
  show ?thesis
    by (simp only: scenario_blueprint2 [OF s] filter_append c0 c2
        scenario_column2_1_lines(2) [OF s] append_Nil append_Nil2)
qed

lemma scenario_cut_lines:
  assumes s: "scenario st"
  shows "filter isCutLine (blueprintLines (generateKirigamiGeometry ev st))
       = [mkLine (xLeft st 1) (Fin (- 50)) (xLeft st 1) (Fin 50) Cut,
          mkLine (xRight st 1) (Fin (- 50)) (xRight st 1) (Fin 50) Cut]"
proof -
  have f0: "isFlat ev st 0" and f2: "isFlat ev st 2"
    by (simp_all add: scenario_isFlat [OF s] isPopup_def)
  have u0: "map ltype (linesOf (column ev st 0)) = [Valley]"
    and u2: "map ltype (linesOf (column ev st 2)) = [Valley]"
    by (simp_all add: flat_column_line_types f0 f2)
  have d0: "filter isCutLine (linesOf (column ev st 0)) = []"
    and d2: "filter isCutLine (linesOf (column ev st 2)) = []"
    by (rule no_cut_by_type, simp add: u0, rule no_cut_by_type, simp add: u2)
  show ?thesis
    by (simp only: scenario_blueprint [OF s] filter_append d0 d2
        scenario_column_1_lines(2) [OF s] append_Nil append_Nil2)
qed

text \<open>
  C2. In the scenario (three columns, two rows, amplitude 50, stairs, fully folded, A4)
  the generator with statistics makes columns 0 and 2 fixed with two static segments
  each (floor and wall), column 1 active with a floor margin, two tread and riser pairs
  and a wall margin; its blueprint has exactly the two cut lines at column 1's left and
  right extents, exactly one mountain line, and two valley lines for column 1. The
  generator of \<open>utils/mathEngine.ts\<close> on the same input gives columns 0 and 2 three
  static segments each (floor frame, wall frame, flat spacer), column 1 two riser and
  tread pairs after its two frames, the two cut lines at column 1's extents, two
  mountain lines, and three valley lines for column 1.
\<close>

theorem scenario_structure:
  assumes s: "scenario st"
  shows
    "(\<not> isPopup 0 \<and> isPopup 1 \<and> \<not> isPopup 2) \<and>
     segmentsOf (column2 st 0) = [floorSegment2 st 0, wallSegment2 st 0] \<and>
     segmentsOf (column2 st 2) = [floorSegment2 st 2, wallSegment2 st 2] \<and>
     segmentNormals (column2 st 1)
       = [normFloor, normFloor, normWall st, normFloor, normWall st, normWall st] \<and>
     filter isCutLine (g_blueprintLines (generateKirigamiGeometry2 st))
       = [mkLine (xLeft st 1) (Fin (- (297 / 2))) (xLeft st 1) (Fin (297 / 2)) Cut,
          mkLine (xRight st 1) (Fin (- (297 / 2))) (xRight st 1) (Fin (297 / 2)) Cut] \<and>
     length (filter isMountainLine (g_blueprintLines (generateKirigamiGeometry2 st))) = 1 \<and>
     length (filter isValleyLine (linesOf (column2 st 1))) = 2 \<and>
     length (segmentsOf (column ev st 0)) = 3 \<and>
     length (segmentsOf (column ev st 2)) = 3 \<and>
     segmentNormals (column ev st 1)
       = [normFloor, normWall st, normWall st, normFloor, normWall st, normFloor] \<and>
     filter isCutLine (blueprintLines (generateKirigamiGeometry ev st))
       = [mkLine (xLeft st 1) (Fin (- 50)) (xLeft st 1) (Fin 50) Cut,
          mkLine (xRight st 1) (Fin (- 50)) (xRight st 1) (Fin 50) Cut] \<and>
     length (filter isMountainLine (blueprintLines (generateKirigamiGeometry ev st))) = 2 \<and>
     length (filter isValleyLine (linesOf (column ev st 1))) = 3"
proof -
  have roles: "\<not> isPopup 0 \<and> isPopup 1 \<and> \<not> isPopup 2"
    by (simp add: isPopup_def)
  have f0: "isFlat ev st 0" and f2: "isFlat ev st 2"
    by (simp_all add: scenario_isFlat [OF s] isPopup_def)
  have t0: "map ltype (linesOf (column2 st 0)) = [Spine, Spine, Valley, Spine, Spine]"
    and t2: "map ltype (linesOf (column2 st 2)) = [Spine, Spine, Valley, Spine, Spine]"
    by (simp_all add: fixed_column2_line_types isPopup_def)
  note t1 = scenario_column2_1_lines(1) [OF s]
  note cut2 = scenario_cut_lines2 [OF s]
  have m2: "length (filter isMountainLine (g_blueprintLines (generateKirigamiGeometry2 st))) = 1"
    by (simp only: scenario_blueprint2 [OF s] count_by_type map_append t0 t1 t2) simp
  have v2: "length (filter isValleyLine (linesOf (column2 st 1))) = 2"
    by (simp only: count_by_type t1) simp
  have u0: "map ltype (linesOf (column ev st 0)) = [Valley]"
    and u2: "map ltype (linesOf (column ev st 2)) = [Valley]"
    by (simp_all add: flat_column_line_types f0 f2)
  note u1 = scenario_column_1_lines(1) [OF s, of ev]
  note cut1 = scenario_cut_lines [OF s, of ev]
  have m1: "length (filter isMountainLine (blueprintLines (generateKirigamiGeometry ev st))) = 2"
    by (simp only: scenario_blueprint [OF s] count_by_type map_append u0 u1 u2) simp
  have v1: "length (filter isValleyLine (linesOf (column ev st 1))) = 3"
    by (simp only: count_by_type u1) simp
  show ?thesis
    using roles cut2 m2 v2 cut1 m1 v1
      fixed_column2_segments [of 0 st] fixed_column2_segments [of 2 st]
      scenario_column2_1_normals [OF s] scenario_column_1_normals [OF s, of ev]
      flat_column_segments [OF f0] flat_column_segments [OF f2]
    by (simp add: isPopup_def)
qed

theorem scenario_structure_witness:
  "scenario scenarioConfig \<and>
   length (filter isMountainLine (g_blueprintLines (generateKirigamiGeometry2 scenarioConfig))) = 1 \<and>
   length (filter isValleyLine (linesOf (column2 scenarioConfig 1))) = 2 \<and>
   length (filter isMountainLine
     (blueprintLines (generateKirigamiGeometry noFormula scenarioConfig))) = 2"
  using scenario_structure [OF scenario_scenarioConfig, of noFormula]
    scenario_scenarioConfig
  by simp

text \<open>
  The scenario in the engine of \<open>utils/mathEngine.ts\<close>: not one mountain line, more
  than two valley lines for column 1, and not two segments for column 0.
\<close>

theorem scenario_first_engine_counterexample:
  "length (filter isMountainLine
     (blueprintLines (generateKirigamiGeometry noFormula scenarioConfig))) \<noteq> 1 \<and>
   length (filter isValleyLine (linesOf (column noFormula scenarioConfig 1))) > 2 \<and>
   length (segmentsOf (column noFormula scenarioConfig 0)) \<noteq> 2"
proof -
  note s = scenario_scenarioConfig
  have f0: "isFlat noFormula scenarioConfig 0" and f2: "isFlat noFormula scenarioConfig 2"
    by (simp_all add: scenario_isFlat [OF s] isPopup_def)
  have u0: "map ltype (linesOf (column noFormula scenarioConfig 0)) = [Valley]"
    and u2: "map ltype (linesOf (column noFormula scenarioConfig 2)) = [Valley]"
    by (simp_all add: flat_column_line_types f0 f2)
  note u1 = scenario_column_1_lines(1) [OF s, of noFormula]
  have "length (filter isMountainLine
     (blueprintLines (generateKirigamiGeometry noFormula scenarioConfig))) = 2"
    by (simp only: scenario_blueprint [OF s] count_by_type map_append u0 u1 u2) simp
  moreover have "length (filter isValleyLine (linesOf (column noFormula scenarioConfig 1))) = 3"
    by (simp only: count_by_type u1) simp
  ultimately show ?thesis
    using flat_column_segments [OF f0] by simp
qed

section \<open>Where cut lines lie\<close>

lemma no_cut_filter:
  "(\<And>l. l \<in> set ls \<Longrightarrow> ltype l \<noteq> Cut) \<Longrightarrow> filter isCutLine ls = []"
  by (induction ls) (simp_all add: isCutLine_def)

lemma even_column2_no_cut:
  assumes "\<not> isPopup c"
  shows "filter isCutLine (linesOf (column2 st c)) = []"
proof (rule no_cut_filter)
  fix l assume "l \<in> set (linesOf (column2 st c))"
  then show "ltype l \<noteq> Cut" using cut_line_column2 [of l st c] assms by blast
qed

lemma flat_column_no_cut:
  assumes "isFlat ev st c"
  shows "filter isCutLine (linesOf (column ev st c)) = []"
proof (rule no_cut_filter)
  fix l assume "l \<in> set (linesOf (column ev st c))"
  then show "ltype l \<noteq> Cut" using cut_line_column [of l ev st c] assms by blast
qed

lemma infiniteAmplitude_not_flat: "\<not> isFlat noFormula infiniteAmplitudeConfig 0"
  by (simp add: isFlat_def effAmplitude_def shapeFactor_def isPopup_def
      infiniteAmplitudeConfig_def oneColumnConfig_def)

lemma infiniteAmplitude_run:
  "runOf noFormula infiniteAmplitudeConfig 0 = NaN"
  "riseOf noFormula infiniteAmplitudeConfig 0 = NaN"
  using infiniteAmplitude_not_flat
  by (simp_all add: runOf_def riseOf_def effAmplitude_def shapeFactor_def isPopup_def
      infiniteAmplitudeConfig_def oneColumnConfig_def)

lemma infiniteAmplitude_cut:
  "mkLine (xLeft infiniteAmplitudeConfig 0) NaN (xLeft infiniteAmplitudeConfig 0) NaN Cut
     \<in> set (linesOf (column noFormula infiniteAmplitudeConfig 0))"
  using infiniteAmplitude_not_flat
  by (simp add: column_def Let_def infiniteAmplitude_run quadAt_def split: prod.splits)

text \<open>
  C6. The blueprint is the lines of the columns, column after column. In the generator
  with statistics (\<open>unnamed/part_002\<close>), for every configuration, a line of type cut
  emitted by column \<open>c\<close> is vertical (both endpoints at the same x), that x is the left
  or the right extent of column \<open>c\<close> itself, and column \<open>c\<close> is active: an odd column
  whose profile radius is not below the threshold; a fixed (even-index) column emits
  no cut line. In the generator of \<open>utils/mathEngine.ts\<close> a line of type cut emitted
  by column \<open>c\<close> is vertical at the left or the right extent of column \<open>c\<close> itself, and
  column \<open>c\<close> is not flat; when the amplitude is finite and the paper height is a
  number, every even column is flat and emits no cut line, so that the emitting column
  is an odd one.
\<close>

theorem cut_lines_on_active_extents:
  "g_blueprintLines (generateKirigamiGeometry2 st)
     = concat (map (\<lambda>c. linesOf (column2 st c)) [0..<cols st]) \<and>
   (\<forall>c. \<forall>l \<in> set (linesOf (column2 st c)).
      ltype l = Cut \<longrightarrow>
        isPopup c \<and> \<not> profileRadius2 st c < Fin 1 \<and>
        lx1 l = lx2 l \<and> (lx1 l = xLeft st c \<or> lx1 l = xRight st c)) \<and>
   (\<forall>c. \<not> isPopup c \<longrightarrow> filter isCutLine (linesOf (column2 st c)) = []) \<and>
   blueprintLines (generateKirigamiGeometry ev st)
     = concat (map (\<lambda>c. linesOf (column ev st c)) [0..<cols st]) \<and>
   (\<forall>c. \<forall>l \<in> set (linesOf (column ev st c)).
      ltype l = Cut \<longrightarrow>
        \<not> isFlat ev st c \<and>
        lx1 l = lx2 l \<and> (lx1 l = xLeft st c \<or> lx1 l = xRight st c)) \<and>
   (isFinite (amplitude st) \<and> \<not> isNaN (height (paperSize st)) \<longrightarrow>
      (\<forall>c. (\<not> isPopup c \<longrightarrow>
               isFlat ev st c \<and> filter isCutLine (linesOf (column ev st c)) = []) \<and>
            (\<forall>l \<in> set (linesOf (column ev st c)). ltype l = Cut \<longrightarrow> isPopup c)))"
proof (intro conjI ballI allI impI)
  show "g_blueprintLines (generateKirigamiGeometry2 st)
     = concat (map (\<lambda>c. linesOf (column2 st c)) [0..<cols st])"
    by (simp add: gen2_fields blueprintLines_runColumns2)
  show "blueprintLines (generateKirigamiGeometry ev st)
     = concat (map (\<lambda>c. linesOf (column ev st c)) [0..<cols st])"
    by (simp add: gen_fields blueprintLines_runColumns)
next
  fix c l assume a: "l \<in> set (linesOf (column2 st c))" "ltype l = Cut"
  from cut_line_column2 [OF a]
  show "isPopup c" "\<not> profileRadius2 st c < Fin 1" "lx1 l = lx2 l"
    "lx1 l = xLeft st c \<or> lx1 l = xRight st c" by blast+
next
  fix c assume "\<not> isPopup c"
  then show "filter isCutLine (linesOf (column2 st c)) = []" by (rule even_column2_no_cut)
next
  fix c l assume a: "l \<in> set (linesOf (column ev st c))" "ltype l = Cut"
  from cut_line_column [OF a]
  show "\<not> isFlat ev st c" "lx1 l = lx2 l" "lx1 l = xLeft st c \<or> lx1 l = xRight st c"
    by blast+
next
  fix c
  assume h: "isFinite (amplitude st) \<and> \<not> isNaN (height (paperSize st))" and e: "\<not> isPopup c"
  from even_column_flat [OF e] h show f: "isFlat ev st c" by simp
  from flat_column_no_cut [OF f] show "filter isCutLine (linesOf (column ev st c)) = []" .
next
  fix c l
  assume h: "isFinite (amplitude st) \<and> \<not> isNaN (height (paperSize st))"
    and a: "l \<in> set (linesOf (column ev st c))" "ltype l = Cut"
  from cut_line_column [OF a] have "\<not> isFlat ev st c" by simp
  with even_column_flat [of c st ev] h show "isPopup c" by blast
qed

theorem cut_lines_on_active_extents_witness:
  "mkLine (xLeft scenarioConfig 1) (Fin (- (297 / 2))) (xLeft scenarioConfig 1) (Fin (297 / 2)) Cut
     \<in> set (linesOf (column2 scenarioConfig 1)) \<and>
   isPopup 1 \<and> \<not> profileRadius2 scenarioConfig 1 < Fin 1 \<and>
   mkLine (xLeft scenarioConfig 1) (Fin (- 50)) (xLeft scenarioConfig 1) (Fin 50) Cut
     \<in> set (linesOf (column noFormula scenarioConfig 1)) \<and>
   \<not> isFlat noFormula scenarioConfig 1 \<and>
   isFinite (amplitude scenarioConfig) \<and> \<not> isNaN (height (paperSize scenarioConfig)) \<and>
   \<not> isPopup 0 \<and> isFlat noFormula scenarioConfig 0 \<and>
   filter isCutLine (linesOf (column2 scenarioConfig 0)) = [] \<and>
   filter isCutLine (linesOf (column noFormula scenarioConfig 0)) = []"
proof -
  let ?l = "mkLine (xLeft scenarioConfig 1) (Fin (- (297 / 2))) (xLeft scenarioConfig 1)
              (Fin (297 / 2)) Cut"
  let ?k = "mkLine (xLeft scenarioConfig 1) (Fin (- 50)) (xLeft scenarioConfig 1) (Fin 50) Cut"
  note s = scenario_scenarioConfig
  have "?l \<in> set (filter isCutLine (linesOf (column2 scenarioConfig 1)))"
    by (simp only: scenario_column2_1_lines(2) [OF s]) simp
  then have m: "?l \<in> set (linesOf (column2 scenarioConfig 1))" by simp
  have "?k \<in> set (filter isCutLine (linesOf (column noFormula scenarioConfig 1)))"
    by (simp only: scenario_column_1_lines(2) [OF s]) simp
  then have k: "?k \<in> set (linesOf (column noFormula scenarioConfig 1))" by simp
  have t: "ltype ?l = Cut" "ltype ?k = Cut" by (simp_all add: mkLine_def)
  have fin: "isFinite (amplitude scenarioConfig)" "\<not> isNaN (height (paperSize scenarioConfig))"
    by (simp_all add: scenarioConfig_def PAPER_A4_def)
  have p0: "\<not> isPopup 0" by (simp add: isPopup_def)
  note main = cut_lines_on_active_extents [of scenarioConfig noFormula]
  from main m t(1) have a: "isPopup 1 \<and> \<not> profileRadius2 scenarioConfig 1 < Fin 1" by blast
  from main k t(2) have b: "\<not> isFlat noFormula scenarioConfig 1" by blast
  from main p0 have c: "filter isCutLine (linesOf (column2 scenarioConfig 0)) = []" by blast
  from main fin p0 have d: "isFlat noFormula scenarioConfig 0 \<and>
      filter isCutLine (linesOf (column noFormula scenarioConfig 0)) = []" by blast
  show ?thesis using m k a b c d fin p0 by simp
qed

text \<open>
  With an infinite amplitude the engine of \<open>utils/mathEngine.ts\<close> computes
  \<open>Infinity \<times> 0 = NaN\<close> for the even column 0, \<open>NaN < 0.5\<close> is false, and the column,
  not flat, emits its two cut lines.
\<close>

theorem infinite_amplitude_cut_counterexample:
  "\<not> isPopup 0 \<and> cols infiniteAmplitudeConfig = 1 \<and>
   amplitude infiniteAmplitudeConfig = PInf \<and>
   \<not> isFlat noFormula infiniteAmplitudeConfig 0 \<and>
   mkLine (xLeft infiniteAmplitudeConfig 0) NaN (xLeft infiniteAmplitudeConfig 0) NaN Cut
     \<in> set (linesOf (column noFormula infiniteAmplitudeConfig 0)) \<and>
   mkLine (xLeft infiniteAmplitudeConfig 0) NaN (xLeft infiniteAmplitudeConfig 0) NaN Cut
     \<in> set (blueprintLines (generateKirigamiGeometry noFormula infiniteAmplitudeConfig)) \<and>
   filter isCutLine (blueprintLines (generateKirigamiGeometry noFormula infiniteAmplitudeConfig))
     \<noteq> []"
proof -
  let ?l = "mkLine (xLeft infiniteAmplitudeConfig 0) NaN (xLeft infiniteAmplitudeConfig 0) NaN Cut"
  have c: "cols infiniteAmplitudeConfig = 1"
    by (simp add: infiniteAmplitudeConfig_def oneColumnConfig_def)
  have b: "blueprintLines (generateKirigamiGeometry noFormula infiniteAmplitudeConfig)
           = linesOf (column noFormula infiniteAmplitudeConfig 0)"
    by (simp add: gen_fields blueprintLines_runColumns c)
  have "?l \<in> set (filter isCutLine (linesOf (column noFormula infiniteAmplitudeConfig 0)))"
    using infiniteAmplitude_cut by (simp add: isCutLine_def mkLine_def)
  then have "filter isCutLine (linesOf (column noFormula infiniteAmplitudeConfig 0)) \<noteq> []"
    by (cases "filter isCutLine (linesOf (column noFormula infiniteAmplitudeConfig 0))") simp_all
  moreover have "\<not> isPopup 0" by (simp add: isPopup_def)
  moreover have "amplitude infiniteAmplitudeConfig = PInf"
    by (simp add: infiniteAmplitudeConfig_def oneColumnConfig_def)
  ultimately show ?thesis
    unfolding b using infiniteAmplitude_not_flat infiniteAmplitude_cut c by simp
qed

section \<open>Negligible profiles\<close>

lemma normX_finite:
  assumes "c < cols st"
  shows "\<exists>r. normX st c = Fin r \<and> - 1 \<le> r \<and> r < 1"
proof -
  define q where "q = real c / real (cols st)"
  have pos: "0 < real (cols st)" using assms by simp
  have q1: "q < 1" using assms by (simp add: q_def)
  have q0: "0 \<le> q" by (simp add: q_def)
  have "normX st c = Fin (q * 2 - 1)"
    using pos by (simp add: normX_def of_count_def minus_num_def q_def)
  moreover have "- 1 \<le> q * 2 - 1" "q * 2 - 1 < 1" using q0 q1 by simp_all
  ultimately show ?thesis by blast
qed









section \<open>The clamp of the profile height\<close>

lemma Math_min_not_above: "\<not> (b < Math_min a b)"
  by (cases a; cases b) simp_all

text \<open>
  C5. In the generator with statistics each active column's profile radius is clamped
  to \<open>paperHeight/2 - margin\<close> and never exceeds it. In \<open>utils/mathEngine.ts\<close> the
  effective amplitude (the absolute value of amplitude times shape factor) is clamped
  to \<open>paperHeight/2 - 5\<close> instead and never exceeds that bound.
\<close>

theorem profile_height_clamped:
  "\<not> (height (paperSize st) / Fin 2 - margin (paperSize st) < profileRadius2 st c) \<and>
   \<not> (height (paperSize st) / Fin 2 - Fin 5 < effAmplitude ev st c)"
  by (simp add: profileRadius2_def effAmplitude_def maxSafe_def Math_min_not_above)

text \<open>
  On A4 paper (margin 20) with amplitude 140 and the stairs profile, column 1 of
  \<open>utils/mathEngine.ts\<close> has the effective amplitude 140, above
  \<open>paperHeight/2 - margin = 128.5\<close>.
\<close>

theorem first_engine_exceeds_margin_counterexample:
  "effAmplitude noFormula tallConfig 1 = Fin 140 \<and>
   height (paperSize tallConfig) / Fin 2 - margin (paperSize tallConfig) = Fin (257 / 2) \<and>
   height (paperSize tallConfig) / Fin 2 - margin (paperSize tallConfig)
     < effAmplitude noFormula tallConfig 1"
  by (simp add: tallConfig_def scenarioConfig_def PAPER_A4_def effAmplitude_def
      shapeFactor_def isPopup_def maxSafe_def minus_num_def)

section \<open>The custom formula\<close>

lemma inUnit_Fin [simp]: "inUnit (Fin r) = (0 \<le> r \<and> r \<le> 1)"
  by (simp add: inUnit_def)

lemma inUnit_special [simp]: "\<not> inUnit NaN" "\<not> inUnit PInf" "\<not> inUnit NInf"
  by (simp_all add: inUnit_def)

lemma inUnit_clampAbs01: "inUnit (clampAbs01 a)"
  by (cases a) (simp_all add: clampAbs01_def)

lemma clampAbs01_values:
  "clampAbs01 NaN = Fin 0" "clampAbs01 (Fin 0) = Fin 0"
  "clampAbs01 PInf = Fin 1" "clampAbs01 NInf = Fin 1"
  by (simp_all add: clampAbs01_def)

lemma inUnit_customFactor: "inUnit (customFactor ev st c)"
  by (simp add: customFactor_def inUnit_clampAbs01 split: FormulaOutcome.split)

lemma custom_shape:
  "algorithm st = Custom \<Longrightarrow>
   shapeFactor ev st c = (if isPopup c then customFactor ev st c else Fin 0)"
  by (simp add: shapeFactor_def)

text \<open>
  C3. With the \<open>custom\<close> algorithm and a formula that only computes: when the formula
  does not compile, throws when run, or yields \<open>NaN\<close>, the height factor is 0, for every
  column; when it yields \<open>+Infinity\<close> or \<open>-Infinity\<close>, the factor of a pop-up
  column is 1 (the infinity is clamped, not rejected); an even column has the factor 0
  whatever the formula does, since the formula is not run for it.
\<close>

theorem custom_failure_absorbed:
  assumes "algorithm st = Custom"
  shows
    "(formulaOutcome ev st c = CompileError \<or> formulaOutcome ev st c = BodyThrows \<or>
      formulaOutcome ev st c = Value NaN \<longrightarrow> shapeFactor ev st c = Fin 0) \<and>
     (isPopup c \<and>
      (formulaOutcome ev st c = Value PInf \<or> formulaOutcome ev st c = Value NInf)
        \<longrightarrow> shapeFactor ev st c = Fin 1) \<and>
     (\<not> isPopup c \<longrightarrow> shapeFactor ev st c = Fin 0)"
  by (auto simp: custom_shape [OF assms] customFactor_def formulaOutcome_def
      clampAbs01_values)

theorem custom_failure_absorbed_witness:
  "algorithm (customConfig ''NaN'') = Custom \<and>
   formulaOutcome sampleEvaluator (customConfig ''NaN'') 1 = Value NaN \<and>
   shapeFactor sampleEvaluator (customConfig ''NaN'') 1 = Fin 0 \<and>
   algorithm (customConfig ''1/0'') = Custom \<and> isPopup 1 \<and>
   formulaOutcome sampleEvaluator (customConfig ''1/0'') 1 = Value PInf \<and>
   shapeFactor sampleEvaluator (customConfig ''1/0'') 1 = Fin 1 \<and>
   \<not> isPopup 0 \<and>
   shapeFactor sampleEvaluator (customConfig ''1/0'') 0 = Fin 0"
proof -
  have a: "algorithm (customConfig ''NaN'') = Custom" "algorithm (customConfig ''1/0'') = Custom"
    by (simp_all add: customConfig_def)
  have b: "formulaOutcome sampleEvaluator (customConfig ''NaN'') 1 = Value NaN"
    "formulaOutcome sampleEvaluator (customConfig ''1/0'') 1 = Value PInf"
    by (simp_all add: formulaOutcome_def sampleEvaluator_def customConfig_def)
  have p: "isPopup 1" "\<not> isPopup 0" by (simp_all add: isPopup_def)
  show ?thesis
    using custom_failure_absorbed [OF a(1), of sampleEvaluator 1]
      custom_failure_absorbed [OF a(2), of sampleEvaluator 1]
      custom_failure_absorbed [OF a(2), of sampleEvaluator 0] a b p
    by simp
qed

text \<open>
  The formula \<open>1/0\<close> yields \<open>+Infinity\<close>, a non-finite result, and the height factor of
  column 1 is 1, not 0.
\<close>

theorem custom_infinity_counterexample:
  "algorithm (customConfig ''1/0'') = Custom \<and>
   formulaOutcome sampleEvaluator (customConfig ''1/0'') 1 = Value PInf \<and>
   shapeFactor sampleEvaluator (customConfig ''1/0'') 1 = Fin 1 \<and>
   shapeFactor sampleEvaluator (customConfig ''1/0'') 1 \<noteq> Fin 0"
  by (simp add: formulaOutcome_def sampleEvaluator_def customConfig_def shapeFactor_def
      customFactor_def clampAbs01_def isPopup_def scenarioConfig_def)

section \<open>Finite numbers\<close>

lemma isFinite_iff: "isFinite a = (\<exists>r. a = Fin r)"
  by (cases a) simp_all

lemma fin_arith:
  "isFinite a \<Longrightarrow> isFinite b \<Longrightarrow> isFinite (a + b)"
  "isFinite a \<Longrightarrow> isFinite b \<Longrightarrow> isFinite (a - b)"
  "isFinite a \<Longrightarrow> isFinite b \<Longrightarrow> isFinite (a * b)"
  "isFinite a \<Longrightarrow> isFinite (- a)"
  "isFinite a \<Longrightarrow> isFinite (Math_abs a)"
  "isFinite a \<Longrightarrow> isFinite (Math_cos a)"
  "isFinite a \<Longrightarrow> isFinite (Math_sin a)"
  "isFinite a \<Longrightarrow> isFinite b \<Longrightarrow> isFinite (Math_min a b)"
  "isFinite a \<Longrightarrow> isFinite b \<Longrightarrow> isFinite (Math_max a b)"
  "isFinite (Fin r)"
  by (auto simp: isFinite_iff minus_num_def)

lemma fin_divide: "isFinite a \<Longrightarrow> r \<noteq> 0 \<Longrightarrow> isFinite (a / Fin r)"
  by (auto simp: isFinite_iff)

section \<open>The range of the shape factor\<close>

lemma inUnitI: "0 \<le> r \<Longrightarrow> r \<le> 1 \<Longrightarrow> inUnit (Fin r)"
  by simp

lemma inUnitE:
  assumes "inUnit a"
  obtains r where "a = Fin r" "0 \<le> r" "r \<le> 1"
  using assms by (cases a) simp_all

lemma inUnit_times: "inUnit a \<Longrightarrow> inUnit b \<Longrightarrow> inUnit (a * b)"
  by (elim inUnitE) (simp add: mult_le_one)

lemma inUnit_half_cos: "inUnit (Math_cos (Fin x) * Fin 0.5 + Fin 0.5)"
proof -
  have "- 1 \<le> cos x" "cos x \<le> 1" by simp_all
  then have "0 \<le> cos x / 2 + 1 / 2" "cos x / 2 + 1 / 2 \<le> 1" by linarith+
  then show ?thesis by simp
qed

lemma inUnit_abs_sin: "inUnit (Math_abs (Math_sin (Fin x)))"
  by (simp add: abs_sin_le_one)

lemma inUnit_abs_cos: "inUnit (Math_abs (Math_cos (Fin x)))"
  by (simp add: abs_cos_le_one)

lemma inUnit_exp_neg: "0 \<le> x \<Longrightarrow> inUnit (Math_exp (Fin (- x)))"
  by simp

lemma inUnit_pow:
  assumes "0 \<le> m" "m \<le> 1" "0 \<le> e"
  shows "inUnit (Math_pow (Fin m) (Fin e))"
proof (cases "e = 0 \<or> m = 0")
  case True
  then show ?thesis using assms by auto
next
  case False
  then have "0 < m" using assms by simp
  moreover have "m powr e \<le> 1" using assms by (simp add: powr_le1)
  ultimately show ?thesis using False by simp
qed

lemma inUnit_floor_ratio:
  assumes "inUnit b" and "0 < n"
  shows "inUnit (Math_floor (b * Fin (of_int n)) / Fin (of_int n))"
proof -
  obtain r where r: "b = Fin r" "0 \<le> r" "r \<le> 1" using assms(1) by (rule inUnitE)
  have n: "(0::real) < of_int n" using assms(2) by simp
  have "0 \<le> r * of_int n" using r n by simp
  then have lo: "0 \<le> \<lfloor>r * of_int n\<rfloor>" by simp
  have "r * of_int n \<le> of_int n" using r n by (simp add: mult_left_le_one_le)
  then have "\<lfloor>r * of_int n\<rfloor> \<le> n" by (simp add: floor_le_iff)
  then have hi: "real_of_int \<lfloor>r * of_int n\<rfloor> \<le> of_int n" by simp
  show ?thesis
    using lo hi n by (simp add: r)
qed

lemma dome_unit:
  assumes "0 \<le> x" "x < 1" "0 < e"
  shows "inUnit (Math_pow (Fin 1 - Math_pow (Fin x) (Fin e)) (Fin 1 / Fin e))"
proof -
  obtain p where p: "Math_pow (Fin x) (Fin e) = Fin p" "0 \<le> p" "p \<le> 1"
    using inUnit_pow [of x e] assms by (auto elim: inUnitE)
  have d: "Fin 1 / Fin e = Fin (1 / e)" using assms by simp
  have s: "Fin 1 - Fin p = Fin (1 - p)" by (simp add: minus_num_def)
  show ?thesis
    unfolding p d s using p assms by (intro inUnit_pow) simp_all
qed


lemma sin_sin_bounds: "- 1 \<le> sin a * sin b" "sin a * sin b \<le> (1::real)"
proof -
  have "\<bar>sin a * sin b\<bar> \<le> 1 * 1"
    unfolding abs_mult by (intro mult_mono) (simp_all add: abs_sin_le_one)
  then show "- 1 \<le> sin a * sin b" "sin a * sin b \<le> 1" by (simp_all add: abs_le_iff)
qed

lemma abs_sin_cos_bound: "\<bar>sin a\<bar> * \<bar>cos b\<bar> \<le> (1::real)"
proof -
  have "\<bar>sin a\<bar> * \<bar>cos b\<bar> \<le> 1 * 1"
    by (intro mult_mono) (simp_all add: abs_sin_le_one abs_cos_le_one)
  then show ?thesis by simp
qed

lemma inUnit_sine:
  "inUnit (Math_abs (Math_sin (Fin nx * Math_PI * Fin f)))"
  by (simp add: Math_PI_def abs_sin_le_one)

lemma inUnit_gaussian:
  assumes "0 \<le> sp"
  shows "inUnit (Math_exp (- (Fin nx * Fin nx * Fin sp / Fin 100)))"
proof -
  have "0 \<le> nx * nx * sp" using assms by simp
  then show ?thesis by simp
qed

lemma inUnit_ripple:
  "inUnit ((Math_cos (Math_abs (Fin nx) * Fin 10 * Fin f) * Fin 0.5 + Fin 0.5)
           * Math_exp ((- Math_abs (Fin nx)) * Fin 2))"
proof -
  have a: "Math_abs (Fin nx) * Fin 10 * Fin f = Fin (\<bar>nx\<bar> * 10 * f)" by simp
  have b: "(- Math_abs (Fin nx)) * Fin 2 = Fin (- (\<bar>nx\<bar> * 2))" by simp
  show ?thesis
    unfolding a b by (intro inUnit_times inUnit_half_cos inUnit_exp_neg) simp
qed

lemma inUnit_voronoi:
  "inUnit (Math_abs (Math_sin (Fin nx * Fin 10)) * Math_abs (Math_cos (Fin nx * Fin 5 * Fin f)))"
  using abs_sin_cos_bound [of "nx * 10" "nx * 5 * f"] by simp

lemma inUnit_noise:
  "inUnit (Math_sin (Fin nx * Fin 13.0 * Fin f) * Math_sin (Fin nx * Fin 27.0) * Fin 0.5
           + Fin 0.5)"
proof -
  have "- 1 \<le> sin (nx * 13 * f) * sin (nx * 27)" "sin (nx * 13 * f) * sin (nx * 27) \<le> 1"
    by (rule sin_sin_bounds)+
  then have "0 \<le> sin (nx * 13 * f) * sin (nx * 27) / 2 + 1 / 2"
    "sin (nx * 13 * f) * sin (nx * 27) / 2 + 1 / 2 \<le> 1" by linarith+
  then show ?thesis by simp
qed

lemma Math_max_tenth:
  obtains e where "Math_max (Fin 0.1) (Fin k) = Fin e" "0 < e"
proof (cases "0.1 < k")
  case True
  then have "Math_max (Fin 0.1) (Fin k) = Fin k" "0 < k" by simp_all
  then show ?thesis by (rule that)
next
  case False
  then have "Math_max (Fin 0.1) (Fin k) = Fin 0.1" "(0::real) < 0.1" by simp_all
  then show ?thesis by (rule that)
qed

lemma dome_or_zero:
  assumes "0 \<le> x" "0 < e"
  shows "inUnit (if Fin x < Fin 1
                 then Math_pow (Fin 1 - Math_pow (Fin x) (Fin e)) (Fin 1 / Fin e)
                 else Fin 0)"
proof (cases "x < 1")
  case True
  have "Fin x < Fin 1" using True by simp
  then show ?thesis
    by (simp only: if_True) (rule dome_unit [OF assms(1) True assms(2)])
next
  case False
  then have "\<not> Fin x < Fin 1" by simp
  then show ?thesis by (simp only: if_False) simp
qed

lemma inUnit_sphere:
  assumes "normX st c = Fin nx" "frequency st = Fin f" "curvature st = Fin k"
    and "\<not> Fin 0 < roughness st"
  shows "inUnit (sphereFactor st c)"
proof -
  obtain e where e: "Math_max (Fin 0.1) (Fin k) = Fin e" "0 < e" by (rule Math_max_tenth)
  define x where "x = \<bar>nx * (0.5 + f * 0.5)\<bar>"
  have x: "Math_abs (Fin nx * (Fin 0.5 + Fin f * Fin 0.5)) = Fin x" by (simp add: x_def)
  have x0: "0 \<le> x" by (simp add: x_def)
  have r: "(Fin 0 < roughness st) = False" using assms(4) by simp
  have "sphereFactor st c =
        (if Fin x < Fin 1
         then Math_pow (Fin 1 - Math_pow (Fin x) (Fin e)) (Fin 1 / Fin e) else Fin 0)"
    unfolding sphereFactor_def Let_def assms(1-3) e x r by (simp only: if_False)
  then show ?thesis by (simp only: dome_or_zero [OF x0 e(2)])
qed

lemma inUnit_torus:
  assumes "normX st c = Fin nx" "frequency st = Fin f" "curvature st = Fin k"
    and "\<not> Fin 0 < roughness st"
  shows "inUnit (torusFactor st c)"
proof -
  obtain e where e: "Math_max (Fin 0.1) (Fin k) = Fin e" "0 < e" by (rule Math_max_tenth)
  define x where "x = \<bar>(\<bar>nx\<bar> - 0.5) * (1.0 + f) * 2\<bar>"
  have x: "Math_abs ((Math_abs (Fin nx) - Fin 0.5) * (Fin 1.0 + Fin f) * Fin 2) = Fin x"
    by (simp add: x_def minus_num_def)
  have x0: "0 \<le> x" by (simp add: x_def)
  have r: "(Fin 0 < roughness st) = False" using assms(4) by simp
  have "torusFactor st c =
        (if Fin x < Fin 1
         then Math_pow (Fin 1 - Math_pow (Fin x) (Fin e)) (Fin 1 / Fin e) else Fin 0)"
    unfolding torusFactor_def Let_def assms(1-3) e x r by (simp only: if_False)
  then show ?thesis by (simp only: dome_or_zero [OF x0 e(2)])
qed


lemma Math_max_zero_one_minus:
  assumes "0 \<le> x"
  obtains m where "Math_max (Fin 0) (Fin 1 - Fin x) = Fin m" "0 \<le> m" "m \<le> 1"
proof (cases "0 < 1 - x")
  case True
  then have "Math_max (Fin 0) (Fin 1 - Fin x) = Fin (1 - x)" "0 \<le> 1 - x" "1 - x \<le> 1"
    using assms by (simp_all add: minus_num_def)
  then show ?thesis by (rule that)
next
  case False
  then have "Math_max (Fin 0) (Fin 1 - Fin x) = Fin 0" "(0::real) \<le> 0" "(0::real) \<le> 1"
    by (simp_all add: minus_num_def)
  then show ?thesis by (rule that)
qed

lemma inUnit_pyramid:
  assumes "normX st c = Fin nx" "frequency st = Fin f" "curvature st = Fin k"
    and "\<not> Fin 1 < roughness st"
  shows "inUnit (pyramidFactor st c)"
proof -
  obtain e where e: "Math_max (Fin 0.1) (Fin k) = Fin e" "0 < e" by (rule Math_max_tenth)
  define x where "x = \<bar>nx * (0.5 + f * 0.5)\<bar>"
  have x: "Math_abs (Fin nx * (Fin 0.5 + Fin f * Fin 0.5)) = Fin x" by (simp add: x_def)
  have x0: "0 \<le> x" by (simp add: x_def)
  obtain m where m: "Math_max (Fin 0) (Fin 1 - Fin x) = Fin m" "0 \<le> m" "m \<le> 1"
    using x0 by (rule Math_max_zero_one_minus)
  have base: "inUnit (Math_pow (Fin m) (Fin e))"
    using m e by (intro inUnit_pow) simp_all
  show ?thesis
  proof (cases "Fin 0 < roughness st")
    case False
    then have r: "(Fin 0 < roughness st) = False" by simp
    have "pyramidFactor st c = Math_pow (Fin m) (Fin e)"
      unfolding pyramidFactor_def Let_def assms(1-3) e x m r by (simp only: if_False)
    then show ?thesis using base by (simp only:)
  next
    case True
    then obtain r where r: "roughness st = Fin r" "0 < r" "r \<le> 1"
      using assms(4) by (cases "roughness st") auto
    define n where "n = 2 + \<lfloor>(1.1 - r) * 20\<rfloor>"
    have "2 \<le> (1.1 - r) * 20" using r by simp
    then have "2 \<le> \<lfloor>(1.1 - r) * 20\<rfloor>" by (simp add: le_floor_iff)
    then have n0: "0 < n" unfolding n_def by linarith
    have st: "Fin 2 + Math_floor ((Fin 1.1 - Fin r) * Fin 20) = Fin (of_int n)"
      by (simp add: n_def minus_num_def)
    have t: "(Fin 0 < Fin r) = True" using r by simp
    have "pyramidFactor st c
          = Math_floor (Math_pow (Fin m) (Fin e) * Fin (of_int n)) / Fin (of_int n)"
      unfolding pyramidFactor_def Let_def assms(1-3) e x m t r(1) st by (simp only: if_True)
    then show ?thesis using inUnit_floor_ratio [OF base n0] by (simp only:)
  qed
qed

lemma inUnit_pagoda:
  assumes "normX st c = Fin nx" "frequency st = Fin f" "curvature st = Fin k"
    and "\<not> Fin 0 < roughness st" and "0 \<le> f" and "0 \<le> k"
  shows "inUnit (pagodaFactor st c)"
proof -
  define n where "n = 2 + \<lfloor>f * 4\<rfloor>"
  have "0 \<le> \<lfloor>f * 4\<rfloor>" using assms(5) by simp
  then have n0: "0 < n" unfolding n_def by linarith
  have t: "Fin 2 + Math_floor (Fin f * Fin 4) = Fin (of_int n)" by (simp add: n_def)
  define x where "x = \<bar>nx\<bar> * 1.2"
  have x: "Math_abs (Fin nx) * Fin 1.2 = Fin x" by (simp add: x_def)
  have x0: "0 \<le> x" by (simp add: x_def)
  obtain m where m: "Math_max (Fin 0) (Fin 1 - Fin x) = Fin m" "0 \<le> m" "m \<le> 1"
    using x0 by (rule Math_max_zero_one_minus)
  have kk: "Fin k * Fin 0.5 = Fin (k * 0.5)" by simp
  have base: "inUnit (Math_pow (Fin m) (Fin (k * 0.5)))"
    using m assms(6) by (intro inUnit_pow) simp_all
  have r: "(Fin 0 < roughness st) = False" using assms(4) by simp
  have "pagodaFactor st c
        = Math_floor (Math_pow (Fin m) (Fin (k * 0.5)) * Fin (of_int n)) / Fin (of_int n)"
    unfolding pagodaFactor_def Let_def assms(1-3) t x m kk r by (simp only: if_False)
  then show ?thesis using inUnit_floor_ratio [OF base n0] by (simp only:)
qed

lemma envelope_unit:
  assumes "0 \<le> a"
  shows "inUnit (Math_max (Fin 0) (Fin 1 - Math_pow (Fin a) (Fin k)))"
proof (cases "Math_pow (Fin a) (Fin k)")
  case (Fin p)
  have "0 \<le> p"
    using Fin assms by (auto split: if_splits)
  then obtain m where "Math_max (Fin 0) (Fin 1 - Fin p) = Fin m" "0 \<le> m" "m \<le> 1"
    by (rule Math_max_zero_one_minus)
  then show ?thesis by (simp only: Fin inUnit_Fin)
next
  case PInf
  then show ?thesis by (simp only: PInf) (simp add: minus_num_def)
next
  case NInf
  then show ?thesis using assms by (auto split: if_splits)
next
  case NaN
  then show ?thesis using assms by (auto split: if_splits)
qed

lemma inUnit_vase:
  assumes "normX st c = Fin nx" "frequency st = Fin f" "curvature st = Fin k"
    and "\<not> Fin 0 < roughness st"
  shows "inUnit (vaseFactor st c)"
proof -
  have a: "Math_abs (Fin nx) = Fin \<bar>nx\<bar>" by simp
  have v: "Fin nx * Math_PI * (Fin f + Fin 0.5) * Fin 2 = Fin (nx * pi * (f + 0.5) * 2)"
    by (simp add: Math_PI_def)
  have r: "(Fin 0 < roughness st) = False" using assms(4) by simp
  have "vaseFactor st c
        = (Math_cos (Fin (nx * pi * (f + 0.5) * 2)) * Fin 0.5 + Fin 0.5)
          * Math_max (Fin 0) (Fin 1 - Math_pow (Fin \<bar>nx\<bar>) (Fin k))"
    unfolding vaseFactor_def Let_def assms(1-3) a v r by (simp only: if_False)
  then show ?thesis
    using inUnit_times [OF inUnit_half_cos envelope_unit [of "\<bar>nx\<bar>" k]]
    by (simp only:)
qed

lemma inUnit_canyon:
  assumes "normX st c = Fin nx" "frequency st = Fin f" "curvature st = Fin k"
    and "\<not> Fin 0 < roughness st" and "0 \<le> k"
  shows "inUnit (canyonFactor st c)"
proof -
  define x where "x = \<bar>nx * (0.5 + f * 0.5)\<bar>"
  have x: "Math_abs (Fin nx * (Fin 0.5 + Fin f * Fin 0.5)) = Fin x" by (simp add: x_def)
  have x0: "0 \<le> x" by (simp add: x_def)
  have m: "Math_min (Fin 1) (Math_max (Fin 0) (Fin x)) = Fin (min 1 x)"
    using x0 by (simp add: min_def)
  have base: "inUnit (Math_pow (Fin (min 1 x)) (Fin k))"
    using x0 assms(5) by (intro inUnit_pow) simp_all
  have r: "(Fin 0 < roughness st) = False" using assms(4) by simp
  have "canyonFactor st c = Math_pow (Fin (min 1 x)) (Fin k)"
    unfolding canyonFactor_def Let_def assms(1-3) x m r by (simp only: if_False)
  then show ?thesis using base by (simp only:)
qed

lemma inUnit_steps:
  assumes "normX st c = Fin nx" "frequency st = Fin f" "curvature st = Fin k"
    and "0 \<le> f" and "0 \<le> k"
  shows "inUnit (stepsFactor st c)"
proof -
  define n where "n = \<lfloor>2 + f * 8\<rfloor>"
  have "2 \<le> 2 + f * 8" using assms(4) by simp
  then have "2 \<le> n" unfolding n_def by (simp add: le_floor_iff)
  then have n0: "0 < n" by simp
  have t: "Math_floor (Fin 2 + Fin f * Fin 8) = Fin (of_int n)" by (simp add: n_def)
  have a: "Math_abs (Fin nx) = Fin \<bar>nx\<bar>" by simp
  obtain m where m: "Math_max (Fin 0) (Fin 1 - Fin \<bar>nx\<bar>) = Fin m" "0 \<le> m" "m \<le> 1"
    by (rule Math_max_zero_one_minus [of "\<bar>nx\<bar>"]) simp_all
  have base: "inUnit (Math_pow (Fin m) (Fin k))"
    using m assms(5) by (intro inUnit_pow) simp_all
  have "stepsFactor st c
        = Math_floor (Math_pow (Fin m) (Fin k) * Fin (of_int n)) / Fin (of_int n)"
    unfolding stepsFactor_def Let_def assms(1-3) t a m by (rule refl)
  then show ?thesis using inUnit_floor_ratio [OF base n0] by (simp only:)
qed

lemma finiteTriple_fractalBody:
  "finiteTriple s \<Longrightarrow> finiteTriple (fractalBody (Fin nx) k s)"
  by (cases s) (simp add: finiteTriple_def fractalBody_def of_count_def fin_arith)

lemma finiteTriple_fold_fractalBody:
  "finiteTriple s \<Longrightarrow> finiteTriple (fold (fractalBody (Fin nx)) ks s)"
  by (induction ks arbitrary: s) (simp_all add: finiteTriple_fractalBody)

lemma inUnit_fractal:
  assumes "normX st c = Fin nx" "frequency st = Fin f"
  shows "inUnit (fractalFactor st c)"
proof -
  have "finiteTriple (fold (fractalBody (Fin nx)) [0..<fractalOctaves st]
          (Fin 0, Fin 0.5, Fin f))"
    by (rule finiteTriple_fold_fractalBody) (simp add: finiteTriple_def)
  then obtain v a q where
    "fold (fractalBody (Fin nx)) [0..<fractalOctaves st] (Fin 0, Fin 0.5, Fin f)
       = (Fin v, Fin a, Fin q)"
    by (auto simp: finiteTriple_def isFinite_iff)
  then have "fractalFactor st c = Math_min (Fin 1) (Math_abs (Fin v) + Fin 0.1)"
    by (simp add: fractalFactor_def assms)
  then show ?thesis by simp
qed

lemma clamp_unit: "\<not> isNaN a \<Longrightarrow> inUnit (Math_max (Fin 0) (Math_min (Fin 1) a))"
  by (cases a) simp_all

lemma findSpan_bound:
  "i + 1 < length pts \<Longrightarrow> findSpan pts u i + 1 < length pts"
proof (induction pts u i rule: findSpan.induct)
  case (1 pts u i)
  show ?case
  proof (cases "i + 2 < length pts \<and> fst (pts ! (i + 1)) < u")
    case True
    then have "findSpan pts u i = findSpan pts u (i + 1)"
      by (subst findSpan.simps) simp
    moreover have "findSpan pts u (i + 1) + 1 < length pts"
      using True by (intro "1.IH") simp_all
    ultimately show ?thesis by simp
  next
    case False
    then have "findSpan pts u i = i" by (subst findSpan.simps) auto
    then show ?thesis using "1.prems" by simp
  qed
qed

lemma catmullRom_finite:
  "isFinite p0 \<Longrightarrow> isFinite p1 \<Longrightarrow> isFinite p2 \<Longrightarrow> isFinite p3 \<Longrightarrow> isFinite t \<Longrightarrow>
   isFinite (catmullRom p0 p1 p2 p3 t)"
  by (simp add: catmullRom_def Let_def fin_arith)

lemma finite_lerp:
  assumes "isFinite u" "isFinite a" "isFinite b"
  shows "isFinite (if b - a = Fin 0 then Fin 0 else (u - a) / (b - a))"
proof -
  obtain u' a' b' where e: "u = Fin u'" "a = Fin a'" "b = Fin b'"
    using assms by (auto simp: isFinite_iff)
  show ?thesis by (simp add: e minus_num_def)
qed

lemma finite_not_NaN: "isFinite a \<Longrightarrow> \<not> isNaN a"
  by (cases a) simp_all

lemma inUnit_sketch:
  assumes "normX st c = Fin nx" and "finitePoints (sketchPoints st)"
  shows "inUnit (sketchFactor st c)"
proof (cases "1 < length (sketchPoints st)")
  case False
  then show ?thesis by (simp add: sketchFactor_def)
next
  case True
  define pts where "pts = sketchPoints st"
  define u where "u = (Fin nx + Fin 1) / Fin 2"
  define i where "i = findSpan pts u 0"
  have len: "1 < length pts" using True by (simp add: pts_def)
  have fin: "\<And>j. j < length pts \<Longrightarrow> isFinite (fst (pts ! j)) \<and> isFinite (snd (pts ! j))"
    using assms(2) by (simp add: finitePoints_def pts_def list_all_length)
  have i1: "i + 1 < length pts"
    unfolding i_def using len by (intro findSpan_bound) simp
  have uf: "isFinite u" by (simp add: u_def)
  define p1 where "p1 = pts ! i"
  define p2 where "p2 = pts ! (i + 1)"
  define p0 where "p0 = (if 0 < i then pts ! (i - 1) else (fst p1 - (fst p2 - fst p1), snd p1))"
  define p3 where "p3 = (if i + 2 < length pts then pts ! (i + 2)
                         else (fst p2 + (fst p2 - fst p1), snd p2))"
  define tLerp where "tLerp = (if fst p2 - fst p1 = Fin 0 then Fin 0
                               else (u - fst p1) / (fst p2 - fst p1))"
  have f1: "isFinite (fst p1)" "isFinite (snd p1)"
    using fin [of i] i1 by (simp_all add: p1_def)
  have f2: "isFinite (fst p2)" "isFinite (snd p2)"
    using fin [of "i + 1"] i1 by (simp_all add: p2_def)
  have f0: "isFinite (snd p0)"
    using fin [of "i - 1"] i1 f1 by (simp add: p0_def)
  have f3: "isFinite (snd p3)"
    using fin [of "i + 2"] f2 by (simp add: p3_def)
  have ft: "isFinite tLerp"
    unfolding tLerp_def by (rule finite_lerp [OF uf f1(1) f2(1)])
  have c1: "(1 < length (sketchPoints st)) = True" using True by simp
  have c2: "(length (sketchPoints st) < 2) = False" using True by simp
  have "sketchFactor st c
        = Math_max (Fin 0) (Math_min (Fin 1) (catmullRom (snd p0) (snd p1) (snd p2) (snd p3) tLerp))"
    unfolding sketchFactor_def Let_def tLerp_def p0_def p3_def p1_def p2_def i_def u_def
      pts_def assms(1) c1 c2
    by (simp only: if_True if_False)
  then show ?thesis
    using clamp_unit [OF finite_not_NaN [OF catmullRom_finite [OF f0 f1(2) f2(2) f3 ft]]]
    by (simp only:)
qed

lemma dataAt_nat:
  assumes "k < length d"
  shows "dataAt d (Fin (real k)) = Fin (real (d ! k))"
  using assms by (simp add: dataAt_def of_count_def)

lemma inUnit_image:
  assumes nx: "normX st c = Fin nx" "- 1 \<le> nx" "nx < 1"
    and img: "heightMapData st = Some img" "wellFormedImage img"
  shows "inUnit (imageFactor st c)"
proof -
  define w where "w = img_width img"
  define h where "h = img_height img"
  define d where "d = img_data img"
  have w0: "0 < w" and h0: "0 < h" and len: "length d = 4 * w * h"
    and bytes: "\<And>k. k < length d \<Longrightarrow> d ! k \<le> 255"
    using img(2) by (simp_all add: wellFormedImage_def w_def h_def d_def list_all_length)
  define u where "u = (nx + 1) / 2"
  have u0: "0 \<le> u" and u1: "u < 1" using nx(2,3) by (simp_all add: u_def)
  define col where "col = nat \<lfloor>u * (real w - 1)\<rfloor>"
  define row where "row = h div 2"
  have w1: "0 \<le> real w - 1" using w0 by simp
  have cnn: "0 \<le> u * (real w - 1)" using u0 w1 by simp
  have "u * (real w - 1) \<le> 1 * (real w - 1)"
    using u1 w1 by (intro mult_right_mono) simp_all
  then have "u * (real w - 1) < real w" by simp
  then have "\<lfloor>u * (real w - 1)\<rfloor> < int w" by (simp add: floor_less_iff)
  moreover have "0 \<le> \<lfloor>u * (real w - 1)\<rfloor>" using cnn by simp
  ultimately have colw: "col < w" unfolding col_def by linarith
  have "0 \<le> \<lfloor>u * (real w - 1)\<rfloor>" using cnn by simp
  then have colr: "real_of_int \<lfloor>u * (real w - 1)\<rfloor> = real col"
    by (simp add: col_def)
  have "\<lfloor>real h / real 2\<rfloor> = int (h div 2)"
    by (rule floor_divide_of_nat_eq)
  then have rowr: "real_of_int \<lfloor>real h / 2\<rfloor> = real row"
    by (simp add: row_def)
  have rowh: "row < h" using h0 by (simp add: row_def)
  define K where "K = (row * w + col) * 4"
  have "row * w + col < row * w + w" using colw by simp
  also have "\<dots> = (row + 1) * w" by simp
  also have "\<dots> \<le> h * w" using rowh by (intro mult_right_mono) simp_all
  finally have "row * w + col < h * w" .
  then have "row * w + col + 1 \<le> h * w" by simp
  then have "(row * w + col + 1) * 4 \<le> h * w * 4" by (rule mult_right_mono) simp
  then have "K + 4 \<le> length d" by (simp add: K_def len algebra_simps)
  then have K2: "K + 2 < length d" and K1: "K + 1 < length d" and K0: "K < length d"
    by simp_all
  define a where "a = d ! K"
  define b where "b = d ! (K + 1)"
  define g where "g = d ! (K + 2)"
  have ab: "a \<le> 255" "b \<le> 255" "g \<le> 255"
    using bytes K0 K1 K2 by (simp_all add: a_def b_def g_def)
  have idx: "(Math_floor (of_count h / Fin 2) * of_count w
              + Math_floor ((Fin nx + Fin 1) / Fin 2 * (of_count w - Fin 1))) * Fin 4
             = Fin (real K)"
    using colr rowr
    by (simp add: of_count_def minus_num_def u_def K_def)
  have i1: "Fin (real K) + Fin 1 = Fin (real (K + 1))"
    and i2: "Fin (real K) + Fin 2 = Fin (real (K + 2))" by simp_all
  have val: "imageFactor st c
             = (Fin (real a) + Fin (real b) + Fin (real g)) / Fin 3 / Fin 255"
    unfolding imageFactor_def img(1) option.case Let_def nx(1) w_def [symmetric]
      h_def [symmetric] d_def [symmetric] idx i1 i2
      dataAt_nat [OF K0] dataAt_nat [OF K1] dataAt_nat [OF K2]
      a_def [symmetric] b_def [symmetric] g_def [symmetric]
    by (rule refl)
  have "0 \<le> (real a + real b + real g) / 3 / 255" by simp
  moreover have "real a + real b + real g \<le> 765"
    using ab by simp
  then have "(real a + real b + real g) / 3 / 255 \<le> 1" by simp
  ultimately show ?thesis unfolding val by simp
qed

lemma inUnit_finite: "inUnit a \<Longrightarrow> isFinite a"
  by (cases a) simp_all

lemma bounded_Fin: "bounded a \<Longrightarrow> \<exists>r. a = Fin r"
  by (cases a) (simp_all add: bounded_def)

lemma unitSketch_finite: "unitSketch pts \<Longrightarrow> finitePoints pts"
  by (auto simp: unitSketch_def finitePoints_def list_all_iff inUnit_finite)

lemma even_shapeFactor: "\<not> isPopup c \<Longrightarrow> shapeFactor ev st c = Fin 0"
  by (simp add: shapeFactor_def)

lemma inUnit_shapeFactor:
  assumes c: "c < cols st" and rc: "rangeCondition st"
  shows "inUnit (shapeFactor ev st c)"
proof (cases "isPopup c")
  case False
  then show ?thesis by (simp add: shapeFactor_def)
next
  case True
  obtain nx where nx: "normX st c = Fin nx" "- 1 \<le> nx" "nx < 1"
    using normX_finite [OF c] by auto
  show ?thesis
  proof (cases "algorithm st")
    case Stairs
    then show ?thesis using True by (simp add: shapeFactor_def)
  next
    case Sine
    then obtain f where f: "frequency st = Fin f"
      using rc bounded_Fin [of "frequency st"] by (auto simp: rangeCondition_def)
    show ?thesis
      using True Sine inUnit_sine [of nx f] by (simp add: shapeFactor_def nx f del: inUnit_Fin)
  next
    case Gaussian
    then obtain sp where sp: "spread st = Fin sp" "0 \<le> sp"
      using rc by (auto simp: rangeCondition_def isFinite_iff)
    show ?thesis
      using True Gaussian inUnit_gaussian [OF sp(2), of nx]
      by (simp add: shapeFactor_def nx sp)
  next
    case Ripple
    then obtain f where f: "frequency st = Fin f"
      using rc bounded_Fin [of "frequency st"] by (auto simp: rangeCondition_def)
    show ?thesis
      using True Ripple inUnit_ripple [of nx f] by (simp add: shapeFactor_def nx f)
  next
    case Voronoi
    then obtain f where f: "frequency st = Fin f"
      using rc bounded_Fin [of "frequency st"] by (auto simp: rangeCondition_def)
    show ?thesis
      using True Voronoi inUnit_voronoi [of nx f] by (simp add: shapeFactor_def nx f)
  next
    case Noise
    then obtain f where f: "frequency st = Fin f"
      using rc bounded_Fin [of "frequency st"] by (auto simp: rangeCondition_def)
    show ?thesis
      using True Noise inUnit_noise [of nx f] by (simp add: shapeFactor_def nx f)
  next
    case Fractal
    then obtain f where f: "frequency st = Fin f"
      using rc bounded_Fin [of "frequency st"] by (auto simp: rangeCondition_def)
    show ?thesis
      using True Fractal inUnit_fractal [OF nx(1) f] by (simp add: shapeFactor_def)
  next
    case Custom
    then show ?thesis
      using True inUnit_customFactor [of ev st c] by (simp add: shapeFactor_def)
  next
    case Sphere
    then obtain f k where fk: "frequency st = Fin f" "curvature st = Fin k"
      and r: "\<not> Fin 0 < roughness st"
      using rc by (auto simp: rangeCondition_def isFinite_iff)
    from inUnit_sphere [OF nx(1) fk r] show ?thesis
      using True Sphere by (simp add: shapeFactor_def)
  next
    case Pyramid
    then obtain f k where fk: "frequency st = Fin f" "curvature st = Fin k"
      and r: "\<not> Fin 1 < roughness st"
      using rc by (auto simp: rangeCondition_def isFinite_iff)
    from inUnit_pyramid [OF nx(1) fk r] show ?thesis
      using True Pyramid by (simp add: shapeFactor_def)
  next
    case Steps
    then obtain f k where fk: "frequency st = Fin f" "curvature st = Fin k"
      and s: "0 \<le> f" "0 \<le> k"
      using rc bounded_Fin [of "frequency st"]
      by (auto simp: rangeCondition_def isFinite_iff)
    from inUnit_steps [OF nx(1) fk s] show ?thesis
      using True Steps by (simp add: shapeFactor_def)
  next
    case Torus
    then obtain f k where fk: "frequency st = Fin f" "curvature st = Fin k"
      and r: "\<not> Fin 0 < roughness st"
      using rc by (auto simp: rangeCondition_def isFinite_iff)
    from inUnit_torus [OF nx(1) fk r] show ?thesis
      using True Torus by (simp add: shapeFactor_def)
  next
    case Pagoda
    then obtain f k where fk: "frequency st = Fin f" "curvature st = Fin k"
      and r: "\<not> Fin 0 < roughness st" and s: "0 \<le> f" "0 \<le> k"
      using rc bounded_Fin [of "frequency st"]
      by (auto simp: rangeCondition_def isFinite_iff)
    from inUnit_pagoda [OF nx(1) fk r s] show ?thesis
      using True Pagoda by (simp add: shapeFactor_def)
  next
    case Vase
    then obtain f k where fk: "frequency st = Fin f" "curvature st = Fin k"
      and r: "\<not> Fin 0 < roughness st"
      using rc bounded_Fin [of "frequency st"]
      by (auto simp: rangeCondition_def isFinite_iff)
    from inUnit_vase [OF nx(1) fk r] show ?thesis
      using True Vase by (simp add: shapeFactor_def)
  next
    case Canyon
    then obtain f k where fk: "frequency st = Fin f" "curvature st = Fin k"
      and r: "\<not> Fin 0 < roughness st" and s: "0 \<le> k"
      using rc by (auto simp: rangeCondition_def isFinite_iff)
    from inUnit_canyon [OF nx(1) fk r s] show ?thesis
      using True Canyon by (simp add: shapeFactor_def)
  next
    case Image
    show ?thesis
    proof (cases "heightMapData st")
      case None
      then show ?thesis using True Image by (simp add: shapeFactor_def imageFactor_def)
    next
      case (Some img)
      then have "wellFormedImage img" using rc Image by (simp add: rangeCondition_def)
      from inUnit_image [OF nx Some this] show ?thesis
        using True Image by (simp add: shapeFactor_def)
    qed
  next
    case Sketch
    then have "finitePoints (sketchPoints st)"
      using rc unitSketch_finite by (simp add: rangeCondition_def)
    from inUnit_sketch [OF nx(1) this] show ?thesis
      using True Sketch by (simp add: shapeFactor_def)
  qed
qed

text \<open>
  C1. An even (fixed) column always gets the factor 0. For a column of the sheet, the
  profile evaluation returns a value in the closed interval from 0 to 1: for stairs;
  for sine, ripple, voronoi and noise with a frequency of magnitude at most a million;
  for fractal with such a frequency and at most 1000 octaves; for gaussian with a
  finite non-negative spread; for custom with a formula that only computes; for sphere
  and torus with finite frequency and curvature unless the roughness is positive; for
  pyramid with finite frequency and curvature unless the roughness exceeds 1; for vase
  with a bounded frequency and a finite curvature unless the roughness is positive; for
  canyon with finite frequency and a finite non-negative curvature unless the roughness
  is positive; for pagoda with a bounded non-negative frequency and a finite
  non-negative curvature unless the roughness is positive; for steps with a bounded
  non-negative frequency and a finite non-negative curvature; for image with no raster
  or a well-formed one of fewer than \<open>2^53\<close> bytes; for sketch with fewer than two
  control points, or with control points in the unit square whose first abscissa is 0
  and last abscissa is 1.
\<close>

theorem shape_factor_in_unit:
  "(\<not> isPopup c \<longrightarrow> shapeFactor ev st c = Fin 0) \<and>
   (c < cols st \<and> rangeCondition st \<longrightarrow> inUnit (shapeFactor ev st c))"
  using even_shapeFactor [of c ev st] inUnit_shapeFactor [of c st ev] by blast

theorem shape_factor_in_unit_witness:
  "1 < cols sphereConfig \<and> rangeCondition sphereConfig \<and>
   inUnit (shapeFactor noFormula sphereConfig 1) \<and>
   \<not> isPopup 0 \<and> shapeFactor noFormula sphereConfig 0 = Fin 0"
proof -
  have a: "1 < cols sphereConfig"
    by (simp add: sphereConfig_def scenarioConfig_def)
  have b: "rangeCondition sphereConfig"
    by (simp add: rangeCondition_def sphereConfig_def scenarioConfig_def)
  have p: "\<not> isPopup 0" by (simp add: isPopup_def)
  show ?thesis
    using shape_factor_in_unit [of 1 noFormula sphereConfig]
      shape_factor_in_unit [of 0 noFormula sphereConfig] a b p by simp
qed

lemma cos_lower_quadratic: "1 - x\<^sup>2 / 2 \<le> cos (x::real)"
proof -
  have "\<bar>sin (x / 2)\<bar> \<le> \<bar>x / 2\<bar>" by (rule abs_sin_x_le_abs_x)
  then have "(sin (x / 2))\<^sup>2 \<le> (x / 2)\<^sup>2"
    by (rule abs_le_square_iff [THEN iffD1])
  moreover have "cos x = 1 - 2 * (sin (x / 2))\<^sup>2"
    using cos_double_sin [of "x / 2"] by simp
  ultimately show ?thesis by (simp add: power2_eq_square)
qed

lemma vaseSlider_value:
  "shapeFactor noFormula vaseSliderConfig 51
   = Fin ((cos (3 * pi / 101) / 2 + 1 / 2) * (10200 / 10201)
          + cos (60 / 101) / 10 * (10200 / 10201))"
  by (simp add: vaseSliderConfig_def scenarioConfig_def shapeFactor_def vaseFactor_def
      normX_def of_count_def isPopup_def Math_PI_def Let_def minus_num_def powr_numeral
      power2_eq_square algebra_simps)


lemma vaseSlider_above_one:
  "1 < (cos (3 * pi / 101) / 2 + 1 / 2) * (10200 / 10201)
       + cos (60 / 101) / 10 * (10200 / 10201)"
proof -
  have "0 \<le> 3 * pi / 101" "3 * pi / 101 \<le> 12 / 101"
    using pi_less_4 pi_gt_zero by simp_all
  then have "(3 * pi / 101)\<^sup>2 \<le> (12 / 101)\<^sup>2"
    by (rule power_mono [rotated])
  then have a: "1 - (12 / 101)\<^sup>2 / 2 \<le> cos (3 * pi / 101)"
    using cos_lower_quadratic [of "3 * pi / 101"] by linarith
  have b: "1 - (60 / 101)\<^sup>2 / 2 \<le> cos (60 / 101 :: real)"
    by (rule cos_lower_quadratic)
  have a': "10129 / 10201 \<le> cos (3 * pi / 101)" using a by (simp add: power2_eq_square)
  have b': "8401 / 10201 \<le> cos (60 / 101 :: real)" using b by (simp add: power2_eq_square)
  define A where "A = cos (3 * pi / 101)"
  define B where "B = cos (60 / 101 :: real)"
  have e: "(A / 2 + 1 / 2) * (10200 / 10201) + B / 10 * (10200 / 10201)
           = (5100 * A + 5100 + 1020 * B) / 10201"
    by (simp add: field_simps)
  have "10201 < 5100 * A + 5100 + 1020 * B"
    using a' b' unfolding A_def B_def by linarith
  then have "1 < (5100 * A + 5100 + 1020 * B) / 10201" by simp
  then show ?thesis
    unfolding e [unfolded A_def B_def] A_def B_def .
qed

text \<open>
  A valid configuration (two columns, fold progress 1, thickness 0.2) with the vase
  profile and roughness 1: column 1 is at the centre, where the envelope and the
  cosine term are both 1, and the roughness term adds 0.1. Within the ranges of the
  application's controls (101 columns, roughness 1) the factor of column 51 is above 1
  as well.
\<close>

theorem vase_exceeds_one_counterexample:
  "0 < cols vaseConfig \<and> 1 < cols vaseConfig \<and>
   foldProgress vaseConfig = Fin 1 \<and> paperThickness vaseConfig = Fin 0.2 \<and>
   normX vaseConfig 1 = Fin 0 \<and>
   shapeFactor noFormula vaseConfig 1 = Fin 1.1 \<and>
   \<not> inUnit (shapeFactor noFormula vaseConfig 1) \<and>
   51 < cols vaseSliderConfig \<and>
   \<not> inUnit (shapeFactor noFormula vaseSliderConfig 51)"
proof -
  have "\<not> inUnit (shapeFactor noFormula vaseSliderConfig 51)"
    unfolding vaseSlider_value using vaseSlider_above_one by simp
  moreover have "51 < cols vaseSliderConfig"
    by (simp add: vaseSliderConfig_def)
  ultimately show ?thesis
    by (simp add: vaseConfig_def scenarioConfig_def shapeFactor_def vaseFactor_def
        normX_def of_count_def isPopup_def Math_PI_def Let_def minus_num_def)
qed

section \<open>The guard of \<open>pushQuad\<close>\<close>

lemma isNaN_toFloat32 [simp]: "isNaN (toFloat32 a) = isNaN a"
  by (cases a) simp_all

lemma quadsGuarded_iff:
  "quadsGuarded ps ns =
     (length ps mod 12 = 0 \<and> length ns = length ps \<and>
      (\<forall>k. 12 * k < length ps \<longrightarrow> \<not> isNaN (ps ! (12 * k))) \<and>
      (\<forall>j. 3 * j < length ns \<longrightarrow> \<not> isNaN (ns ! (3 * j))))"
proof (cases "length ps mod 12 = 0 \<and> length ns = length ps")
  case False
  then show ?thesis by (auto simp: quadsGuarded_def)
next
  case True
  then obtain m where m: "length ps = 12 * m" "length ns = 12 * m"
    by (auto simp: mod_eq_0_iff_dvd elim: dvdE)
  have d: "12 * m div 3 = 4 * m" by simp
  have "\<And>j. (j < 4 * m) = (3 * j < 12 * m)" by linarith
  then show ?thesis
    by (auto simp add: quadsGuarded_def m list_all_iff d)
qed

lemma quadsGuarded_map:
  assumes "quadsGuarded ps ns"
  shows "quadsGuarded (map toFloat32 ps) (map toFloat32 ns)"
  using assms by (simp add: quadsGuarded_iff)

lemma guarded_pushQuad:
  assumes g: "quadsGuarded (positions b) (normals b)"
  shows "quadsGuarded (positions (pushQuad b v0 v1 v2 v3 n))
           (normals (pushQuad b v0 v1 v2 v3 n))"
proof (cases "isNaN (vx v0) \<or> isNaN (vx n)")
  case True
  then show ?thesis using g by (simp add: pushQuad_def)
next
  case False
  define ps where "ps = positions b"
  define ns where "ns = normals b"
  define pb where "pb = [vx v0, vy v0, vz v0, vx v1, vy v1, vz v1,
                         vx v2, vy v2, vz v2, vx v3, vy v3, vz v3]"
  define nb where "nb = [vx n, vy n, vz n, vx n, vy n, vz n,
                         vx n, vy n, vz n, vx n, vy n, vz n]"
  have q: "positions (pushQuad b v0 v1 v2 v3 n) = ps @ pb"
    "normals (pushQuad b v0 v1 v2 v3 n) = ns @ nb"
    using False by (simp_all add: pushQuad_def Let_def ps_def ns_def pb_def nb_def)
  from g obtain m where m: "length ps = 12 * m" "length ns = 12 * m"
    by (auto simp: quadsGuarded_iff ps_def ns_def mod_eq_0_iff_dvd elim: dvdE)
  have oldp: "\<And>k. 12 * k < 12 * m \<Longrightarrow> \<not> isNaN (ps ! (12 * k))"
    and oldn: "\<And>j. 3 * j < 12 * m \<Longrightarrow> \<not> isNaN (ns ! (3 * j))"
    using g m by (simp_all add: quadsGuarded_iff ps_def ns_def)
  have lp: "length pb = 12" and ln: "length nb = 12" by (simp_all add: pb_def nb_def)
  have newp: "\<not> isNaN ((ps @ pb) ! (12 * k))" if "12 * k < length (ps @ pb)" for k
  proof (cases "k < m")
    case True
    then show ?thesis using oldp [of k] by (simp add: nth_append m)
  next
    case False
    then have "k = m" using that by (simp add: m lp)
    then show ?thesis using \<open>\<not> (isNaN (vx v0) \<or> isNaN (vx n))\<close>
      by (simp add: nth_append m pb_def)
  qed
  have newn: "\<not> isNaN ((ns @ nb) ! (3 * j))" if "3 * j < length (ns @ nb)" for j
  proof (cases "3 * j < 12 * m")
    case True
    then show ?thesis using oldn [of j] by (simp add: nth_append m)
  next
    case False
    then have "3 * j - 12 * m = 0 \<or> 3 * j - 12 * m = 3 \<or> 3 * j - 12 * m = 6
               \<or> 3 * j - 12 * m = 9"
      using that by (simp add: m ln) presburger
    then show ?thesis using False \<open>\<not> (isNaN (vx v0) \<or> isNaN (vx n))\<close>
      by (auto simp: nth_append m nb_def)
  qed
  show ?thesis
    unfolding q quadsGuarded_iff using newp newn by (simp add: m lp ln)
qed

lemma guarded_pushVolumetricSegment:
  "quadsGuarded (positions b) (normals b) \<Longrightarrow>
   quadsGuarded (positions (pushVolumetricSegment b v0 v1 v2 v3 n th l r))
     (normals (pushVolumetricSegment b v0 v1 v2 v3 n th l r))"
  by (simp add: pushVolumetricSegment_def Let_def guarded_pushQuad)

lemma guarded_pushVolumetricSegment2:
  "quadsGuarded (positions b) (normals b) \<Longrightarrow>
   quadsGuarded (positions (pushVolumetricSegment2 b v0 v1 v2 v3 n th l r))
     (normals (pushVolumetricSegment2 b v0 v1 v2 v3 n th l r))"
  by (simp add: pushVolumetricSegment2_def Let_def guarded_pushQuad)

lemma guarded_exec:
  "quadsGuarded (positions b) (normals b) \<Longrightarrow>
   quadsGuarded (positions (exec th b cmd)) (normals (exec th b cmd))"
  by (cases cmd) (simp_all add: guarded_pushVolumetricSegment)

lemma guarded_exec2:
  "quadsGuarded (positions b) (normals b) \<Longrightarrow>
   quadsGuarded (positions (exec2 th b cmd)) (normals (exec2 th b cmd))"
  by (cases cmd) (simp_all add: guarded_pushVolumetricSegment2)

lemma guarded_foldl_exec:
  "quadsGuarded (positions b) (normals b) \<Longrightarrow>
   quadsGuarded (positions (foldl (exec th) b cmds)) (normals (foldl (exec th) b cmds))"
  by (induction cmds arbitrary: b) (simp_all add: guarded_exec)

lemma guarded_foldl_exec2:
  "quadsGuarded (positions b) (normals b) \<Longrightarrow>
   quadsGuarded (positions (foldl (exec2 th) b cmds)) (normals (foldl (exec2 th) b cmds))"
  by (induction cmds arbitrary: b) (simp_all add: guarded_exec2)

lemma guarded_runColumns2:
  "quadsGuarded (positions (runColumns2 st)) (normals (runColumns2 st))"
  unfolding runColumns2_def
  by (rule guarded_foldl_exec2) (simp add: quadsGuarded_def emptyBuffers_def)

lemma guarded_runColumns:
  "quadsGuarded (positions (runColumns ev st)) (normals (runColumns ev st))"
  unfolding runColumns_def
  by (rule guarded_foldl_exec) (simp add: quadsGuarded_def emptyBuffers_def)

lemmas oneColumn_eval =
  runColumns2_def column2_def oneColumnConfig_def PAPER_A4_def isPopup_def
  fixedColumn2_def floorSegment2_def wallSegment2_def xLeft_def xRight_def xBase_def
  stripWidth_def KERF_def of_count_def minus_num_def normFloor_def normWall_def
  vecWall_def foldAngleRad_def Math_PI_def zeroVector_def mkLine_def thicknessOf_def
  js_or_def emptyBuffers_def pushVolumetricSegment2_def pushQuad_def Let_def
  normalize_def divideScalar_def vlength_def

lemma infiniteHeight_positions:
  "NInf \<in> set (positions (runColumns2 infiniteHeightConfig))"
  by (simp add: infiniteHeightConfig_def oneColumn_eval)

lemma hugeHeight_positions:
  "Fin (- (2 ^ 128)) \<in> set (positions (runColumns2 hugeHeightConfig))"
  by (simp add: hugeHeightConfig_def oneColumn_eval)

lemma nanFold_positions:
  "NaN \<in> set (positions (runColumns2 nanFoldConfig))"
  by (simp add: nanFoldConfig_def oneColumn_eval)

lemma toFloat32_huge: "toFloat32 (Fin (- (2 ^ 128))) = NInf"
  by simp

lemma oneColumn_nonempty: "0 < length (positions (runColumns2 oneColumnConfig))"
proof -
  have "0 < length (positions (runColumns2 oneColumnConfig)) div 3"
    using oneColumn_has_index wellFormed_runColumns2 [of oneColumnConfig]
    by (auto simp: wellFormed_def list_all_iff)
  then show ?thesis by (cases "positions (runColumns2 oneColumnConfig)") simp_all
qed

text \<open>
  C8. A quad is silently discarded, contributing nothing to the buffers, exactly when
  the x coordinate of its first vertex or the x coordinate of its normal is \<open>NaN\<close>.
  Every other quad is emitted with all its numbers as they are, whatever they are:
  infinities, and \<open>NaN\<close> in any other coordinate, are appended to the buffers.
  Consequently the emitted buffers (of both generators, after their conversion to single
  precision) consist of whole quads in which the x of the first vertex and the x of
  every normal is not \<open>NaN\<close>; nothing more is ensured of the other numbers.
\<close>

theorem quad_guard:
  "(isNaN (vx v0) \<or> isNaN (vx n) \<longrightarrow> pushQuad b v0 v1 v2 v3 n = b) \<and>
   (\<not> isNaN (vx v0) \<and> \<not> isNaN (vx n) \<longrightarrow>
      positions (pushQuad b v0 v1 v2 v3 n)
        = positions b @ [vx v0, vy v0, vz v0, vx v1, vy v1, vz v1,
                         vx v2, vy v2, vz v2, vx v3, vy v3, vz v3] \<and>
      normals (pushQuad b v0 v1 v2 v3 n)
        = normals b @ [vx n, vy n, vz n, vx n, vy n, vz n,
                       vx n, vy n, vz n, vx n, vy n, vz n] \<and>
      indices (pushQuad b v0 v1 v2 v3 n)
        = indices b @ [length (positions b) div 3, length (positions b) div 3 + 1,
                       length (positions b) div 3 + 2, length (positions b) div 3,
                       length (positions b) div 3 + 2, length (positions b) div 3 + 3]) \<and>
   quadsGuarded (g_positions (generateKirigamiGeometry2 st))
     (g_normals (generateKirigamiGeometry2 st)) \<and>
   quadsGuarded (positions (generateKirigamiGeometry ev st))
     (normals (generateKirigamiGeometry ev st))"
  using quadsGuarded_map [OF guarded_runColumns2 [of st]]
    quadsGuarded_map [OF guarded_runColumns [of ev st]]
  by (simp add: pushQuad_def Let_def gen2_fields gen_fields)

theorem quad_guard_witness:
  "isNaN (vx (Vector3 NaN (Fin 0) (Fin 0))) \<and>
   pushQuad emptyBuffers (Vector3 NaN (Fin 0) (Fin 0)) zeroVector zeroVector zeroVector
     normFloor = emptyBuffers \<and>
   \<not> isNaN (vx (Vector3 (Fin 0) NaN PInf)) \<and> \<not> isNaN (vx normFloor) \<and>
   positions (pushQuad emptyBuffers (Vector3 (Fin 0) NaN PInf) zeroVector zeroVector
     zeroVector normFloor)
     = [Fin 0, NaN, PInf, Fin 0, Fin 0, Fin 0, Fin 0, Fin 0, Fin 0, Fin 0, Fin 0, Fin 0] \<and>
   0 < length (g_positions (generateKirigamiGeometry2 oneColumnConfig)) \<and>
   \<not> isNaN (g_positions (generateKirigamiGeometry2 oneColumnConfig) ! 0) \<and>
   \<not> isNaN (g_normals (generateKirigamiGeometry2 oneColumnConfig) ! 0)"
proof -
  have n: "\<not> isNaN (vx (Vector3 (Fin 0) NaN PInf))" "\<not> isNaN (vx normFloor)"
    "isNaN (vx (Vector3 NaN (Fin 0) (Fin 0)))"
    by (simp_all add: normFloor_def)
  have l: "0 < length (g_positions (generateKirigamiGeometry2 oneColumnConfig))"
    using oneColumn_nonempty by (simp add: gen2_fields)
  have g: "quadsGuarded (g_positions (generateKirigamiGeometry2 oneColumnConfig))
             (g_normals (generateKirigamiGeometry2 oneColumnConfig))"
    using quad_guard [of zeroVector normFloor emptyBuffers zeroVector zeroVector zeroVector
        oneColumnConfig noFormula] by simp
  have z: "\<not> isNaN (g_positions (generateKirigamiGeometry2 oneColumnConfig) ! (12 * 0))"
    "\<not> isNaN (g_normals (generateKirigamiGeometry2 oneColumnConfig) ! (3 * 0))"
    using g l unfolding quadsGuarded_iff by (metis mult_zero_right)+
  show ?thesis
    using quad_guard [of "Vector3 NaN (Fin 0) (Fin 0)" normFloor emptyBuffers zeroVector
        zeroVector zeroVector oneColumnConfig noFormula]
      quad_guard [of "Vector3 (Fin 0) NaN PInf" normFloor emptyBuffers zeroVector
        zeroVector zeroVector oneColumnConfig noFormula] n l z
    by (simp add: emptyBuffers_def zeroVector_def)
qed

text \<open>
  A quad whose first vertex has an infinite ordinate, or an ordinate that is \<open>NaN\<close>, is
  not discarded. On a sheet of infinite height the generator emits \<open>-Infinity\<close> into
  the positions buffer; on a sheet of the finite height \<open>2^129\<close> it does so too, by the
  conversion to single precision; and with a fold progress that is \<open>NaN\<close> it emits
  \<open>NaN\<close>.
\<close>

theorem non_finite_emitted_counterexample:
  "\<not> isFinite (vy (Vector3 (Fin 0) PInf (Fin 0))) \<and>
   pushQuad emptyBuffers (Vector3 (Fin 0) PInf (Fin 0)) zeroVector zeroVector zeroVector
     normFloor \<noteq> emptyBuffers \<and>
   isNaN (vy (Vector3 (Fin 0) NaN (Fin 0))) \<and>
   NaN \<in> set (positions (pushQuad emptyBuffers (Vector3 (Fin 0) NaN (Fin 0)) zeroVector
     zeroVector zeroVector normFloor)) \<and>
   NInf \<in> set (g_positions (generateKirigamiGeometry2 infiniteHeightConfig)) \<and>
   isFinite (height (paperSize hugeHeightConfig)) \<and>
   NInf \<in> set (g_positions (generateKirigamiGeometry2 hugeHeightConfig)) \<and>
   NaN \<in> set (g_positions (generateKirigamiGeometry2 nanFoldConfig)) \<and>
   \<not> isFinite NInf \<and> \<not> isFinite NaN"
proof -
  have a: "NInf \<in> set (g_positions (generateKirigamiGeometry2 infiniteHeightConfig))"
    using imageI [OF infiniteHeight_positions, of toFloat32] by (simp add: gen2_fields)
  have b: "NInf \<in> set (g_positions (generateKirigamiGeometry2 hugeHeightConfig))"
    using imageI [OF hugeHeight_positions, of toFloat32]
    by (simp only: gen2_fields set_map toFloat32_huge)
  have c: "NaN \<in> set (g_positions (generateKirigamiGeometry2 nanFoldConfig))"
    using imageI [OF nanFold_positions, of toFloat32] by (simp add: gen2_fields)
  have d: "isFinite (height (paperSize hugeHeightConfig))"
    by (simp add: hugeHeightConfig_def)
  show ?thesis
    using a b c d by (simp add: pushQuad_def emptyBuffers_def normFloor_def)
qed

end
